theory Spec2Isabelle
  imports Main "HOL-Library.AList" "HOL-Library.Multiset"
begin

section \<open>Values that cross the process boundary\<close>

text \<open>
  The handlers of the main process receive JavaScript values from the renderer and hand
  JavaScript values back. The values the journal code inspects are \<open>undefined\<close>,
  \<open>null\<close>, booleans, strings, arrays and plain objects; an object is the list of its own
  properties in the order in which they are enumerated. Numbers, bigints and buffers
  are outside this model, and a string is a list of 8-bit characters.
\<close>

datatype jsval =
    JUndefined
  | JNull
  | JBool bool
  | JStr string
  | JArr "jsval list"
  | JObj "(string \<times> jsval) list"

text \<open>\<open>!v\<close> is false exactly for the truthy values.\<close>

fun truthy :: "jsval \<Rightarrow> bool" where
  "truthy JUndefined = False"
| "truthy JNull = False"
| "truthy (JBool b) = b"
| "truthy (JStr s) = (s \<noteq> [])"
| "truthy (JArr vs) = True"
| "truthy (JObj ps) = True"

fun typeof :: "jsval \<Rightarrow> string" where
  "typeof JUndefined = ''undefined''"
| "typeof JNull = ''object''"
| "typeof (JBool b) = ''boolean''"
| "typeof (JStr s) = ''string''"
| "typeof (JArr vs) = ''object''"
| "typeof (JObj ps) = ''object''"

text \<open>
  \<open>v.k\<close> for the property names the handlers read (\<open>title\<close>, \<open>id\<close>, \<open>content\<close>): only a
  plain object carries them; on every other value that the guard \<open>!journal\<close> lets
  through the access yields \<open>undefined\<close>.
\<close>

fun get_prop :: "jsval \<Rightarrow> string \<Rightarrow> jsval" where
  "get_prop (JObj ps) k = (case map_of ps k of Some v \<Rightarrow> v | None \<Rightarrow> JUndefined)"
| "get_prop v k = JUndefined"

text \<open>
  \<open>{ ...journal }\<close>: the own properties of the object, in order. The handlers reach the
  spread only with a value that has a truthy \<open>title\<close> or \<open>id\<close>, which is a plain object.
\<close>

fun own_props :: "jsval \<Rightarrow> (string \<times> jsval) list" where
  "own_props (JObj ps) = ps"
| "own_props v = []"

text \<open>
  Assigning \<open>o.k = v\<close>, or listing \<open>k: v\<close> after a spread, overwrites the property in
  place when \<open>o\<close> has it and appends it otherwise.
\<close>

definition set_prop :: "(string \<times> jsval) list \<Rightarrow> string \<Rightarrow> jsval \<Rightarrow> (string \<times> jsval) list" where
  "set_prop ps k v = AList.update k v ps"

section \<open>The journals table\<close>

text \<open>
  One row of \<open>journals(id TEXT PRIMARY KEY, title TEXT NOT NULL, content TEXT,
  created_at DATETIME DEFAULT CURRENT_TIMESTAMP, updated_at DATETIME DEFAULT
  CURRENT_TIMESTAMP, is_published BOOLEAN DEFAULT 0)\<close>. A nullable TEXT column holds
  \<open>None\<close> for NULL; SQLite admits NULL in a TEXT PRIMARY KEY column. Timestamps are the
  clock's reading in seconds. The record is polymorphic in the content so that the same
  shape serves for the stored row (content: nullable text) and for the object a
  statement returns to JavaScript (content: a JavaScript value).
\<close>

record 'c journal_rec =
  id_col :: "string option"
  title :: string
  content :: 'c
  created_at :: nat
  updated_at :: nat
  is_published :: bool

type_synonym row = "string option journal_rec"
type_synonym journal = "jsval journal_rec"

text \<open>
  The module state: \<open>db\<close> tells whether the module variable \<open>db\<close> holds a connection
  (it is \<open>null\<close> until \<open>initializeDatabase\<close> has opened the database), \<open>journals\<close> is the
  table in the database file, in rowid order. The file outlives the connection, so the
  table is part of the state also while \<open>db\<close> is \<open>null\<close>. The operations follow their
  statements on the table as it stands: a statement that fails for a reason of the
  disk or of the engine itself is outside the model.
\<close>

record store =
  db :: bool
  journals :: "row list"

text \<open>
  \<open>Error m\<close> is \<open>new Error(m)\<close> thrown by the source itself. \<open>BindError\<close> stands for the
  TypeError or RangeError with which the statement refuses its parameters,
  \<open>SqliteError code\<close> for a failed statement.
\<close>

datatype error =
    Error string
  | BindError
  | SqliteError string

definition NotInitialized :: error where
  "NotInitialized = Error ''Database not initialized''"

text \<open>
  The result of \<open>stmt.run\<close>: the number of rows the statement changed (the rowid of the
  last insertion, which the result also carries, is not modelled).
\<close>

record run_result =
  changes :: nat

subsection \<open>Binding parameters\<close>

text \<open>
  A statement binds \<open>null\<close> and \<open>undefined\<close> as NULL and a string as text; it refuses
  booleans and nested arrays or objects.
\<close>

fun bind_value :: "jsval \<Rightarrow> error + string option" where
  "bind_value JUndefined = Inr None"
| "bind_value JNull = Inr None"
| "bind_value (JStr s) = Inr (Some s)"
| "bind_value v = Inl BindError"

text \<open>
  A named parameter \<open>@k\<close> is read from the own property \<open>k\<close> of the object passed to
  \<open>run\<close>; an object that has no such property is refused (a RangeError), whereas a
  property that is there with the value \<open>undefined\<close> binds NULL.
\<close>

definition bind_prop :: "(string \<times> jsval) list \<Rightarrow> string \<Rightarrow> error + string option" where
  "bind_prop ps k = (case map_of ps k of None \<Rightarrow> Inl BindError | Some v \<Rightarrow> bind_value v)"

text \<open>
  The parameters \<open>@id\<close>, \<open>@title\<close>, \<open>@content\<close> of the three writing statements. Only a
  plain object supplies named parameters.
\<close>

fun bind_journal :: "jsval \<Rightarrow> error + (string option \<times> string option \<times> string option)" where
  "bind_journal (JObj ps) =
     (case bind_prop ps ''id'' of
        Inl e \<Rightarrow> Inl e
      | Inr i \<Rightarrow>
          (case bind_prop ps ''title'' of
             Inl e \<Rightarrow> Inl e
           | Inr t \<Rightarrow>
               (case bind_prop ps ''content'' of
                  Inl e \<Rightarrow> Inl e
                | Inr c \<Rightarrow> Inr (i, t, c))))"
| "bind_journal v = Inl BindError"

text \<open>
  The single anonymous parameter \<open>?\<close> of the two statements that take an id. An array
  argument is the list of the anonymous parameters, so it must hold exactly one value.
\<close>

fun bind_id :: "jsval \<Rightarrow> error + string option" where
  "bind_id (JArr [v]) = bind_value v"
| "bind_id (JArr vs) = Inl BindError"
| "bind_id (JObj ps) = Inl BindError"
| "bind_id v = bind_value v"

subsection \<open>The statements\<close>

text \<open>\<open>id = ?\<close>: a comparison with NULL on either side selects nothing.\<close>

fun sql_eq :: "string option \<Rightarrow> string option \<Rightarrow> bool" where
  "sql_eq (Some a) (Some b) = (a = b)"
| "sql_eq a b = False"

definition has_id :: "string option \<Rightarrow> 'c journal_rec \<Rightarrow> bool" where
  "has_id i r = sql_eq (id_col r) i"

text \<open>
  The row an INSERT builds from \<open>(id, title, content)\<close>: the columns the statement
  does not list take their defaults, and \<open>datetime('now')\<close> reads the same clock as
  CURRENT_TIMESTAMP.
\<close>

definition new_row :: "nat \<Rightarrow> string option \<Rightarrow> string \<Rightarrow> string option \<Rightarrow> row" where
  "new_row now i t c =
     \<lparr>id_col = i, title = t, content = c, created_at = now, updated_at = now,
      is_published = False\<rparr>"

text \<open>The object \<open>stmt.get\<close> and \<open>stmt.all\<close> return for a row.\<close>

definition row_to_js :: "row \<Rightarrow> journal" where
  "row_to_js r =
     \<lparr>id_col = id_col r, title = title r,
      content = (case content r of None \<Rightarrow> JNull | Some s \<Rightarrow> JStr s),
      created_at = created_at r, updated_at = updated_at r,
      is_published = is_published r\<rparr>"

text \<open>
  \<open>ORDER BY updated_at DESC\<close>, as a stable insertion sort: SQL leaves the order of
  rows with equal keys open, the model keeps rowid order among them.
\<close>

fun insert_desc :: "'c journal_rec \<Rightarrow> 'c journal_rec list \<Rightarrow> 'c journal_rec list" where
  "insert_desc x [] = [x]"
| "insert_desc x (y # ys) =
     (if updated_at y \<le> updated_at x then x # y # ys else y # insert_desc x ys)"

definition order_by_updated_at_desc :: "'c journal_rec list \<Rightarrow> 'c journal_rec list" where
  "order_by_updated_at_desc rs = foldr insert_desc rs []"

section \<open>journalOperations (database.js)\<close>

text \<open>
  Every operation takes the module state and, where the statement reads the clock, the
  clock's reading \<open>now\<close>. A writing operation returns its outcome and the state it
  leaves; a thrown exception is \<open>Inl\<close>.
\<close>

text \<open>
  \<open>initializeDatabase\<close> runs, inside one \<open>try\<close> block, the file-system calls, the
  assignment \<open>db = new Database(dbPath, ...)\<close>, \<open>db.exec\<close> of
  \<open>CREATE TABLE IF NOT EXISTS journals\<close> and the probe \<open>SELECT 1\<close>; its \<open>catch\<close> block logs
  the error and returns \<open>false\<close>. Which call throws, if any, is the environment's part
  and the parameter of the model: an exception before the assignment leaves \<open>db\<close> as it
  was, an exception after it (in \<open>db.exec\<close> or in the probe) leaves \<open>db\<close> assigned, the
  \<open>catch\<close> block not resetting it. \<open>CREATE TABLE IF NOT EXISTS\<close> keeps the rows of a table
  that is there, and a table that is not there yet is the empty list of rows.
\<close>

datatype init_outcome =
    FailsBeforeOpen
  | FailsAfterOpen
  | Succeeds

definition initializeDatabase :: "init_outcome \<Rightarrow> store \<Rightarrow> bool \<times> store" where
  "initializeDatabase env st =
     (case env of
        FailsBeforeOpen \<Rightarrow> (False, st)
      | FailsAfterOpen \<Rightarrow> (False, st\<lparr>db := True\<rparr>)
      | Succeeds \<Rightarrow> (True, st\<lparr>db := True\<rparr>))"

definition initialize :: "init_outcome \<Rightarrow> store \<Rightarrow> bool \<times> store" where
  "initialize env st = (if \<not> db st then initializeDatabase env st else (True, st))"

definition createJournal :: "nat \<Rightarrow> store \<Rightarrow> jsval \<Rightarrow> (error + run_result) \<times> store" where
  "createJournal now st journal =
     (if \<not> db st then (Inl (Error ''Database not initialized''), st)
      else
        (case bind_journal journal of
           Inl e \<Rightarrow> (Inl e, st)
         | Inr (i, t, c) \<Rightarrow>
             (case t of
                None \<Rightarrow> (Inl (SqliteError ''SQLITE_CONSTRAINT_NOTNULL''), st)
              | Some tt \<Rightarrow>
                  if filter (has_id i) (journals st) \<noteq> []
                  then (Inl (SqliteError ''SQLITE_CONSTRAINT_PRIMARYKEY''), st)
                  else (Inr \<lparr>changes = 1\<rparr>,
                        st\<lparr>journals := journals st @ [new_row now i tt c]\<rparr>))))"

definition getAllJournals :: "store \<Rightarrow> error + journal list" where
  "getAllJournals st =
     (if \<not> db st then Inl (Error ''Database not initialized'')
      else Inr (map row_to_js (order_by_updated_at_desc (journals st))))"

definition getJournalById :: "store \<Rightarrow> jsval \<Rightarrow> error + journal option" where
  "getJournalById st ident =
     (if \<not> db st then Inl (Error ''Database not initialized'')
      else
        (case bind_id ident of
           Inl e \<Rightarrow> Inl e
         | Inr i \<Rightarrow> Inr (map_option row_to_js (find (has_id i) (journals st)))))"

definition updateJournal :: "nat \<Rightarrow> store \<Rightarrow> jsval \<Rightarrow> (error + run_result) \<times> store" where
  "updateJournal now st journal =
     (if \<not> db st then (Inl (Error ''Database not initialized''), st)
      else
        (case bind_journal journal of
           Inl e \<Rightarrow> (Inl e, st)
         | Inr (i, t, c) \<Rightarrow>
             (case t of
                None \<Rightarrow>
                  if filter (has_id i) (journals st) \<noteq> []
                  then (Inl (SqliteError ''SQLITE_CONSTRAINT_NOTNULL''), st)
                  else (Inr \<lparr>changes = 0\<rparr>, st)
              | Some tt \<Rightarrow>
                  (Inr \<lparr>changes = length (filter (has_id i) (journals st))\<rparr>,
                   st\<lparr>journals :=
                        map (\<lambda>r. if has_id i r
                                  then r\<lparr>title := tt, content := c, updated_at := now\<rparr>
                                  else r)
                          (journals st)\<rparr>))))"

definition deleteJournal :: "store \<Rightarrow> jsval \<Rightarrow> (error + run_result) \<times> store" where
  "deleteJournal st ident =
     (if \<not> db st then (Inl (Error ''Database not initialized''), st)
      else
        (case bind_id ident of
           Inl e \<Rightarrow> (Inl e, st)
         | Inr i \<Rightarrow>
             (Inr \<lparr>changes = length (filter (has_id i) (journals st))\<rparr>,
              st\<lparr>journals := filter (\<lambda>r. \<not> has_id i r) (journals st)\<rparr>)))"

text \<open>
  \<open>INSERT OR REPLACE\<close>: a row whose primary key equals the new one is deleted before
  the new row is inserted; a NULL title still aborts the statement, the column having
  no default. The result counts the inserted row only.
\<close>

definition autoSaveJournal :: "nat \<Rightarrow> store \<Rightarrow> jsval \<Rightarrow> (error + run_result) \<times> store" where
  "autoSaveJournal now st journal =
     (if \<not> db st then (Inl (Error ''Database not initialized''), st)
      else
        (case bind_journal journal of
           Inl e \<Rightarrow> (Inl e, st)
         | Inr (i, t, c) \<Rightarrow>
             (case t of
                None \<Rightarrow> (Inl (SqliteError ''SQLITE_CONSTRAINT_NOTNULL''), st)
              | Some tt \<Rightarrow>
                  (Inr \<lparr>changes = 1\<rparr>,
                   st\<lparr>journals :=
                        filter (\<lambda>r. \<not> has_id i r) (journals st) @ [new_row now i tt c]\<rparr>))))"

section \<open>The host's JSON built-ins\<close>

text \<open>
  A model of \<open>JSON.stringify\<close> and \<open>JSON.parse\<close> on the values of this theory, used
  where a concrete serialization is needed. \<open>JSON_stringify\<close> writes no white space,
  escapes the quotation mark, the backslash and the control characters, writes \<open>null\<close>
  for an \<open>undefined\<close> array element and omits a property whose value is \<open>undefined\<close>.
  \<open>JSON_parse\<close> is a recursive-descent parser that runs on fuel, the length of the
  text plus one. A number and a code unit above 255 have no value in this theory, so
  the model covers the texts without number literals and without escapes of code
  units above 255: on these \<open>None\<close> is the SyntaxError of \<open>JSON.parse\<close>. A text that holds a number
  literal or a higher escape also yields \<open>None\<close>, which then says nothing about
  \<open>JSON.parse\<close>; the theorems below read \<open>JSON_parse\<close> only on texts of the first kind.
\<close>

definition hex_digit :: "nat \<Rightarrow> char" where
  "hex_digit n = ''0123456789abcdef'' ! n"

definition hex_value :: "char \<Rightarrow> nat option" where
  "hex_value c =
     (let n = (of_char c :: nat) in
      if 48 \<le> n \<and> n \<le> 57 then Some (n - 48)
      else if 97 \<le> n \<and> n \<le> 102 then Some (n - 87)
      else if 65 \<le> n \<and> n \<le> 70 then Some (n - 55)
      else None)"

definition escape :: "char \<Rightarrow> string" where
  "escape c =
     (if c = CHR 0x22 then [CHR 0x5C, CHR 0x22]
      else if c = CHR 0x5C then [CHR 0x5C, CHR 0x5C]
      else if c = CHR 0x08 then [CHR 0x5C, CHR ''b'']
      else if c = CHR 0x0C then [CHR 0x5C, CHR ''f'']
      else if c = CHR 0x0A then [CHR 0x5C, CHR ''n'']
      else if c = CHR 0x0D then [CHR 0x5C, CHR ''r'']
      else if c = CHR 0x09 then [CHR 0x5C, CHR ''t'']
      else if (of_char c :: nat) < 32
        then [CHR 0x5C, CHR ''u'', CHR ''0'', CHR ''0'',
              hex_digit (of_char c div 16), hex_digit (of_char c mod 16)]
      else [c])"

definition quote :: "string \<Rightarrow> string" where
  "quote s = CHR 0x22 # concat (map escape s) @ [CHR 0x22]"

fun join :: "string list \<Rightarrow> string" where
  "join [] = []"
| "join [x] = x"
| "join (x # y # ys) = x @ '','' @ join (y # ys)"

fun JSON_stringify :: "jsval \<Rightarrow> string"
  and element_texts :: "jsval list \<Rightarrow> string list"
  and member_texts :: "(string \<times> jsval) list \<Rightarrow> string list" where
  "JSON_stringify JUndefined = ''null''"
| "JSON_stringify JNull = ''null''"
| "JSON_stringify (JBool b) = (if b then ''true'' else ''false'')"
| "JSON_stringify (JStr s) = quote s"
| "JSON_stringify (JArr vs) = ''['' @ join (element_texts vs) @ '']''"
| "JSON_stringify (JObj ps) = ''{'' @ join (member_texts ps) @ ''}''"
| "element_texts [] = []"
| "element_texts (v # vs) = JSON_stringify v # element_texts vs"
| "member_texts [] = []"
| "member_texts ((k, v) # ps) =
     (if v = JUndefined then member_texts ps
      else (quote k @ '':'' @ JSON_stringify v) # member_texts ps)"

definition is_ws :: "char \<Rightarrow> bool" where
  "is_ws c \<longleftrightarrow> c = CHR '' '' \<or> c = CHR 0x09 \<or> c = CHR 0x0A \<or> c = CHR 0x0D"

definition skip_ws :: "string \<Rightarrow> string" where
  "skip_ws s = dropWhile is_ws s"

definition unescape :: "char \<Rightarrow> char option" where
  "unescape e =
     (if e = CHR 0x22 then Some (CHR 0x22)
      else if e = CHR 0x5C then Some (CHR 0x5C)
      else if e = CHR ''/'' then Some (CHR ''/'')
      else if e = CHR ''b'' then Some (CHR 0x08)
      else if e = CHR ''f'' then Some (CHR 0x0C)
      else if e = CHR ''n'' then Some (CHR 0x0A)
      else if e = CHR ''r'' then Some (CHR 0x0D)
      else if e = CHR ''t'' then Some (CHR 0x09)
      else None)"

definition hex4 :: "char \<Rightarrow> char \<Rightarrow> char \<Rightarrow> char \<Rightarrow> nat option" where
  "hex4 a b c d =
     (case (hex_value a, hex_value b, hex_value c, hex_value d) of
        (Some x, Some y, Some z, Some w) \<Rightarrow> Some (((x * 16 + y) * 16 + z) * 16 + w)
      | _ \<Rightarrow> None)"

definition cons_char :: "char \<Rightarrow> (string \<times> string) option \<Rightarrow> (string \<times> string) option" where
  "cons_char c r = (case r of None \<Rightarrow> None | Some (s, rest) \<Rightarrow> Some (c # s, rest))"

fun parse_chars :: "string \<Rightarrow> (string \<times> string) option" where
  "parse_chars [] = None"
| "parse_chars (c # t) =
     (if c = CHR 0x22 then Some ([], t)
      else if c = CHR 0x5C then
        (case t of
           [] \<Rightarrow> None
         | e # r \<Rightarrow>
             if e = CHR ''u'' then
               (case r of
                  a # b # x # y # r' \<Rightarrow>
                    (case hex4 a b x y of
                       Some n \<Rightarrow>
                         if n < 256 then cons_char (char_of n) (parse_chars r') else None
                     | None \<Rightarrow> None)
                | _ \<Rightarrow> None)
             else
               (case unescape e of
                  Some ch \<Rightarrow> cons_char ch (parse_chars r)
                | None \<Rightarrow> None))
      else if (of_char c :: nat) < 32 then None
      else cons_char c (parse_chars t))"

text \<open>
  The members of an object text define its properties one after the other: a name
  that occurs again overwrites the value and keeps the place of the first occurrence.
\<close>

definition define_props :: "(string \<times> jsval) list \<Rightarrow> (string \<times> jsval) list" where
  "define_props ps = foldl (\<lambda>acc p. AList.update (fst p) (snd p) acc) [] ps"

text \<open>
  An object enumerates its properties with the array indices first, in ascending
  order, and the other names after them in the order in which they were defined. An
  array index is the decimal numeral, without leading zeros, of a number below
  \<open>2^32 - 1\<close>.
\<close>

definition is_digit :: "char \<Rightarrow> bool" where
  "is_digit c \<longleftrightarrow> 48 \<le> (of_char c :: nat) \<and> (of_char c :: nat) \<le> 57"

definition index_value :: "string \<Rightarrow> int" where
  "index_value s = foldl (\<lambda>n c. 10 * n + (of_char c - 48)) 0 s"

definition is_index :: "string \<Rightarrow> bool" where
  "is_index s \<longleftrightarrow>
     s \<noteq> [] \<and> list_all is_digit s \<and> (s = ''0'' \<or> hd s \<noteq> CHR ''0'')
     \<and> index_value s < 4294967295"

definition enumerate_props :: "(string \<times> jsval) list \<Rightarrow> (string \<times> jsval) list" where
  "enumerate_props ps =
     sort_key (\<lambda>p. index_value (fst p)) (filter (\<lambda>p. is_index (fst p)) ps)
     @ filter (\<lambda>p. \<not> is_index (fst p)) ps"

fun parse_value :: "nat \<Rightarrow> string \<Rightarrow> (jsval \<times> string) option"
  and parse_elements :: "nat \<Rightarrow> string \<Rightarrow> (jsval list \<times> string) option"
  and parse_members :: "nat \<Rightarrow> string \<Rightarrow> ((string \<times> jsval) list \<times> string) option" where
  "parse_value 0 s = None"
| "parse_value (Suc n) s =
     (case skip_ws s of
        [] \<Rightarrow> None
      | c # r \<Rightarrow>
          if c = CHR ''n'' then (if take 3 r = ''ull'' then Some (JNull, drop 3 r) else None)
          else if c = CHR ''t'' then (if take 3 r = ''rue'' then Some (JBool True, drop 3 r) else None)
          else if c = CHR ''f'' then (if take 4 r = ''alse'' then Some (JBool False, drop 4 r) else None)
          else if c = CHR 0x22 then
            (case parse_chars r of
               Some (str, r') \<Rightarrow> Some (JStr str, r')
             | None \<Rightarrow> None)
          else if c = CHR ''['' then
            (case skip_ws r of
               [] \<Rightarrow> None
             | d # r' \<Rightarrow>
                 if d = CHR '']'' then Some (JArr [], r')
                 else (case parse_elements n r of
                         Some (vs, r'') \<Rightarrow> Some (JArr vs, r'')
                       | None \<Rightarrow> None))
          else if c = CHR ''{'' then
            (case skip_ws r of
               [] \<Rightarrow> None
             | d # r' \<Rightarrow>
                 if d = CHR ''}'' then Some (JObj [], r')
                 else (case parse_members n r of
                         Some (ps, r'') \<Rightarrow> Some (JObj (enumerate_props (define_props ps)), r'')
                       | None \<Rightarrow> None))
          else None)"
| "parse_elements 0 s = None"
| "parse_elements (Suc n) s =
     (case parse_value n s of
        None \<Rightarrow> None
      | Some (v, r) \<Rightarrow>
          (case skip_ws r of
             [] \<Rightarrow> None
           | d # r' \<Rightarrow>
               if d = CHR '','' then
                 (case parse_elements n r' of
                    Some (vs, r'') \<Rightarrow> Some (v # vs, r'')
                  | None \<Rightarrow> None)
               else if d = CHR '']'' then Some ([v], r')
               else None))"
| "parse_members 0 s = None"
| "parse_members (Suc n) s =
     (case skip_ws s of
        [] \<Rightarrow> None
      | q # r \<Rightarrow>
          if q = CHR 0x22 then
            (case parse_chars r of
               None \<Rightarrow> None
             | Some (k, r1) \<Rightarrow>
                 (case skip_ws r1 of
                    [] \<Rightarrow> None
                  | e # r2 \<Rightarrow>
                      if e = CHR '':'' then
                        (case parse_value n r2 of
                           None \<Rightarrow> None
                         | Some (v, r3) \<Rightarrow>
                             (case skip_ws r3 of
                                [] \<Rightarrow> None
                              | d # r4 \<Rightarrow>
                                  if d = CHR '','' then
                                    (case parse_members n r4 of
                                       Some (ps, r5) \<Rightarrow> Some ((k, v) # ps, r5)
                                     | None \<Rightarrow> None)
                                  else if d = CHR ''}'' then Some ([(k, v)], r4)
                                  else None))
                      else None))
          else None)"

definition JSON_parse :: "string \<Rightarrow> jsval option" where
  "JSON_parse s =
     (case parse_value (Suc (length s)) s of
        Some (v, r) \<Rightarrow> if skip_ws r = [] then Some v else None
      | None \<Rightarrow> None)"

text \<open>
  The values \<open>JSON.stringify\<close> writes without loss: no \<open>undefined\<close> anywhere, and every
  object lists its properties as an object enumerates them (no name twice, the array
  indices first).
\<close>

fun json_value :: "jsval \<Rightarrow> bool" where
  "json_value JUndefined = False"
| "json_value JNull = True"
| "json_value (JBool b) = True"
| "json_value (JStr s) = True"
| "json_value (JArr vs) = (\<forall>v\<in>set vs. json_value v)"
| "json_value (JObj ps) =
     (enumerate_props (define_props ps) = ps \<and> (\<forall>p\<in>set ps. json_value (snd p)))"

section \<open>The request handlers of the main process\<close>

text \<open>
  \<open>JSON.parse\<close> and \<open>JSON.stringify\<close> are built-ins of the host; a handler takes them as
  the parameters \<open>parse\<close> (\<open>None\<close> when \<open>JSON.parse\<close> throws) and \<open>stringify\<close>, so that what
  is proved of a handler holds for whatever the host's functions do. \<open>uuidv4()\<close> is the
  parameter \<open>uuid\<close>, the clock the parameter \<open>now\<close>.
\<close>

definition empty_content :: jsval where
  "empty_content = JObj [(''bullets'', JArr []), (''images'', JArr []), (''videos'', JArr [])]"

text \<open>
  The block both reading handlers apply to a journal they got from the store:
  \<open>if (journal.content && typeof journal.content === 'string')\<close> the content is
  replaced by what \<open>JSON.parse\<close> makes of it, or by the default structure when
  \<open>JSON.parse\<close> throws.
\<close>

definition parse_content :: "(string \<Rightarrow> jsval option) \<Rightarrow> journal \<Rightarrow> journal" where
  "parse_content parse j =
     (if truthy (content j) \<and> typeof (content j) = ''string''
      then (case content j of
              JStr s \<Rightarrow>
                (case parse s of
                   Some v \<Rightarrow> j\<lparr>content := v\<rparr>
                 | None \<Rightarrow> j\<lparr>content := empty_content\<rparr>)
            | _ \<Rightarrow> j)
      else j)"

text \<open>
  The block the three writing handlers apply to the copy they forward:
  \<open>if (o.content && typeof o.content === 'object') o.content = JSON.stringify(o.content)\<close>.
\<close>

definition stringify_content ::
  "(jsval \<Rightarrow> string) \<Rightarrow> (string \<times> jsval) list \<Rightarrow> (string \<times> jsval) list" where
  "stringify_content stringify ps =
     (let c = get_prop (JObj ps) ''content'' in
      if truthy c \<and> typeof c = ''object''
      then set_prop ps ''content'' (JStr (stringify c))
      else ps)"

definition get_journal :: "(string \<Rightarrow> jsval option) \<Rightarrow> store \<Rightarrow> jsval \<Rightarrow> error + journal option" where
  "get_journal parse st ident =
     (if \<not> truthy ident then Inl (Error ''Journal ID is required'')
      else
        (case getJournalById st ident of
           Inl e \<Rightarrow> Inl e
         | Inr None \<Rightarrow> Inr None
         | Inr (Some j) \<Rightarrow> Inr (Some (parse_content parse j))))"

definition get_all_journals :: "(string \<Rightarrow> jsval option) \<Rightarrow> store \<Rightarrow> error + journal list" where
  "get_all_journals parse st =
     (case getAllJournals st of
        Inl e \<Rightarrow> Inl e
      | Inr js \<Rightarrow> Inr (map (parse_content parse) js))"

definition create_journal ::
  "(jsval \<Rightarrow> string) \<Rightarrow> string \<Rightarrow> nat \<Rightarrow> store \<Rightarrow> jsval \<Rightarrow> (error + run_result) \<times> store" where
  "create_journal stringify uuid now st journal =
     (if \<not> truthy journal \<or> \<not> truthy (get_prop journal ''title'')
      then (Inl (Error ''Invalid journal data''), st)
      else
        (let newJournal = set_prop (own_props journal) ''id'' (JStr uuid)
         in createJournal now st (JObj (stringify_content stringify newJournal))))"

definition update_journal ::
  "(jsval \<Rightarrow> string) \<Rightarrow> nat \<Rightarrow> store \<Rightarrow> jsval \<Rightarrow> (error + run_result) \<times> store" where
  "update_journal stringify now st journal =
     (if \<not> truthy journal \<or> \<not> truthy (get_prop journal ''id'')
      then (Inl (Error ''Invalid journal data''), st)
      else
        (let journalToSave = own_props journal
         in updateJournal now st (JObj (stringify_content stringify journalToSave))))"

definition delete_journal :: "store \<Rightarrow> jsval \<Rightarrow> (error + run_result) \<times> store" where
  "delete_journal st ident =
     (if \<not> truthy ident then (Inl (Error ''Journal ID is required''), st)
      else deleteJournal st ident)"

definition auto_save_journal ::
  "(jsval \<Rightarrow> string) \<Rightarrow> nat \<Rightarrow> store \<Rightarrow> jsval \<Rightarrow> (error + run_result) \<times> store" where
  "auto_save_journal stringify now st journal =
     (if \<not> truthy journal \<or> \<not> truthy (get_prop journal ''id'')
      then (Inl (Error ''Invalid journal data''), st)
      else
        (let journalToSave = own_props journal
         in autoSaveJournal now st (JObj (stringify_content stringify journalToSave))))"

section \<open>Runs of the program\<close>

text \<open>
  A call of one of the store's operations or of one of the six journal handlers, with
  its arguments and, where the call reads them, the clock and the minted id. The
  state a call leaves is the module state after it, whether it returned or threw; the
  four reading calls leave the state as it was. A run is a sequence of calls.
\<close>

datatype call =
    Initialize init_outcome
  | CreateJournal nat jsval
  | GetAllJournals
  | GetJournalById jsval
  | UpdateJournal nat jsval
  | DeleteJournal jsval
  | AutoSaveJournal nat jsval
  | Get_journal jsval
  | Get_all_journals
  | Create_journal string nat jsval
  | Update_journal nat jsval
  | Delete_journal jsval
  | Auto_save_journal nat jsval

fun after_call :: "(jsval \<Rightarrow> string) \<Rightarrow> call \<Rightarrow> store \<Rightarrow> store" where
  "after_call stringify (Initialize env) st = snd (initialize env st)"
| "after_call stringify (CreateJournal now journal) st = snd (createJournal now st journal)"
| "after_call stringify GetAllJournals st = st"
| "after_call stringify (GetJournalById ident) st = st"
| "after_call stringify (UpdateJournal now journal) st = snd (updateJournal now st journal)"
| "after_call stringify (DeleteJournal ident) st = snd (deleteJournal st ident)"
| "after_call stringify (AutoSaveJournal now journal) st = snd (autoSaveJournal now st journal)"
| "after_call stringify (Get_journal ident) st = st"
| "after_call stringify Get_all_journals st = st"
| "after_call stringify (Create_journal uuid now journal) st =
     snd (create_journal stringify uuid now st journal)"
| "after_call stringify (Update_journal now journal) st =
     snd (update_journal stringify now st journal)"
| "after_call stringify (Delete_journal ident) st = snd (delete_journal st ident)"
| "after_call stringify (Auto_save_journal now journal) st =
     snd (auto_save_journal stringify now st journal)"

definition run :: "(jsval \<Rightarrow> string) \<Rightarrow> call list \<Rightarrow> store \<Rightarrow> store" where
  "run stringify calls st = foldl (\<lambda>s c. after_call stringify c s) st calls"

section \<open>Example data\<close>

text \<open>
  A connected store with two rows and the same table behind a module whose \<open>db\<close> is
  still \<open>null\<close>; a well-formed record for the row \<open>a\<close> and one for an id the table does
  not hold.
\<close>

definition row_a :: row where
  "row_a = \<lparr>id_col = Some ''a'', title = ''Day 1'', content = Some ''x'', created_at = 1,
            updated_at = 1, is_published = False\<rparr>"

definition row_b :: row where
  "row_b = \<lparr>id_col = Some ''b'', title = ''Day 2'', content = None, created_at = 2,
            updated_at = 3, is_published = False\<rparr>"

definition store_ab :: store where
  "store_ab = \<lparr>db = True, journals = [row_a, row_b]\<rparr>"

definition store_closed :: store where
  "store_closed = \<lparr>db = False, journals = [row_a, row_b]\<rparr>"

definition record_a :: jsval where
  "record_a = JObj [(''id'', JStr ''a''), (''title'', JStr ''Day 1 bis''), (''content'', JStr ''y'')]"

definition record_c :: jsval where
  "record_c = JObj [(''id'', JStr ''c''), (''title'', JStr ''Day 3''), (''content'', JNull)]"

text \<open>
  A table with a row whose content is the empty text, one with a published row, a
  request with a structured content (and an id the caller supplied) and the same
  request without a title, an id as \<open>uuidv4\<close> mints them, and the stores the handlers
  leave when they write that content at time 9.
\<close>

definition row_e :: row where
  "row_e = \<lparr>id_col = Some ''e'', title = ''Day 4'', content = Some [], created_at = 4,
            updated_at = 4, is_published = False\<rparr>"

definition store_abe :: store where
  "store_abe = \<lparr>db = True, journals = [row_a, row_b, row_e]\<rparr>"

definition row_p :: row where
  "row_p = \<lparr>id_col = Some ''p'', title = ''Day 5'', content = None, created_at = 5,
            updated_at = 5, is_published = True\<rparr>"

definition store_p :: store where
  "store_p = \<lparr>db = True, journals = [row_p]\<rparr>"

definition record_p :: jsval where
  "record_p = JObj [(''id'', JStr ''p''), (''title'', JStr ''Day 5''), (''content'', JNull)]"

definition content_day1 :: jsval where
  "content_day1 =
     JObj [(''bullets'', JArr [JStr ''woke up'']), (''images'', JArr []), (''videos'', JArr [])]"

definition request_day1 :: jsval where
  "request_day1 =
     JObj [(''id'', JStr ''a''), (''title'', JStr ''Day 1''), (''content'', content_day1)]"

definition uuid_1 :: string where
  "uuid_1 = ''3b241101-e2bb-4255-8caf-4136c566a962''"

definition request_untitled :: jsval where
  "request_untitled = JObj [(''id'', JStr ''a''), (''content'', content_day1)]"

definition store_created :: store where
  "store_created =
     \<lparr>db = True,
      journals = [row_a, row_b,
                  new_row 9 (Some uuid_1) ''Day 1'' (Some (JSON_stringify content_day1))]\<rparr>"

definition store_updated :: store where
  "store_updated =
     \<lparr>db = True,
      journals = [row_a\<lparr>title := ''Day 1'', content := Some (JSON_stringify content_day1),
                        updated_at := 9\<rparr>,
                  row_b]\<rparr>"

text \<open>
  An empty table behind an open connection, and the auto-save request for the journal
  created under the minted id.
\<close>

definition store_empty :: store where
  "store_empty = \<lparr>db = True, journals = []\<rparr>"

definition autosave_day1 :: jsval where
  "autosave_day1 =
     JObj [(''id'', JStr uuid_1), (''title'', JStr ''Day 1''), (''content'', content_day1)]"



definition record_missing :: jsval where
  "record_missing = JObj [(''id'', JStr ''missing''), (''title'', JStr ''x'')]"

section \<open>Uninitialized store\<close>

lemma initialize_succeeds: "\<not> db st \<Longrightarrow> initialize Succeeds st = (True, st\<lparr>db := True\<rparr>)"
  by (simp add: initialize_def initializeDatabase_def)

lemma initialize_again: "db st \<Longrightarrow> initialize env st = (True, st)"
  by (simp add: initialize_def)

text \<open>
  C8, amended. If the connection has not been established, that is, the module
  variable \<open>db\<close> is \<open>null\<close>, as it is before the first initialize and still is after an
  initialize that failed before the database was opened, then every store operation
  other than initialize (createJournal, getAllJournals, getJournalById, updateJournal,
  deleteJournal, autoSaveJournal) fails with the NotInitialized error and leaves the
  store unchanged, whatever its arguments.
\<close>

theorem not_initialized_all_operations:
  assumes "\<not> db st"
  shows "initialize FailsBeforeOpen st = (False, st)
       \<and> createJournal now st journal = (Inl NotInitialized, st)
       \<and> getAllJournals st = Inl NotInitialized
       \<and> getJournalById st ident = Inl NotInitialized
       \<and> updateJournal now st journal = (Inl NotInitialized, st)
       \<and> deleteJournal st ident = (Inl NotInitialized, st)
       \<and> autoSaveJournal now st journal = (Inl NotInitialized, st)"
  using assms
  by (simp add: initialize_def initializeDatabase_def createJournal_def getAllJournals_def
      getJournalById_def updateJournal_def deleteJournal_def autoSaveJournal_def
      NotInitialized_def)

theorem not_initialized_all_operations_witness:
  "\<not> db store_closed
   \<and> initialize FailsBeforeOpen store_closed = (False, store_closed)
   \<and> createJournal 7 store_closed record_c = (Inl NotInitialized, store_closed)
   \<and> getAllJournals store_closed = Inl NotInitialized
   \<and> getJournalById store_closed (JStr ''a'') = Inl NotInitialized
   \<and> updateJournal 7 store_closed record_c = (Inl NotInitialized, store_closed)
   \<and> deleteJournal store_closed (JStr ''a'') = (Inl NotInitialized, store_closed)
   \<and> autoSaveJournal 7 store_closed record_c = (Inl NotInitialized, store_closed)"
proof -
  have closed: "\<not> db store_closed"
    by (simp add: store_closed_def)
  from not_initialized_all_operations [OF closed, of 7 record_c "JStr ''a''"] closed
  show ?thesis by simp
qed

text \<open>
  The claim as first stated, for every state in which initialize has not succeeded,
  fails after an initialize that failed once the database was opened:
  \<open>initializeDatabase\<close> has assigned \<open>db\<close> by then and its \<open>catch\<close> block does not reset it,
  so initialize returns \<open>false\<close>, yet each of the six operations passes its guard
  \<open>if (!db)\<close> and goes on to its statement, and a second initialize returns \<open>true\<close>
  without opening anything. Whatever the statement then returns or throws, it is not
  the NotInitialized error.
\<close>

theorem failed_initialize_counterexample:
  "fst (initialize FailsAfterOpen store_closed) = False
   \<and> db (snd (initialize FailsAfterOpen store_closed))
   \<and> fst (createJournal 7 (snd (initialize FailsAfterOpen store_closed)) record_c)
       \<noteq> Inl NotInitialized
   \<and> getAllJournals (snd (initialize FailsAfterOpen store_closed)) \<noteq> Inl NotInitialized
   \<and> getJournalById (snd (initialize FailsAfterOpen store_closed)) (JStr ''a'')
       \<noteq> Inl NotInitialized
   \<and> fst (updateJournal 7 (snd (initialize FailsAfterOpen store_closed)) record_c)
       \<noteq> Inl NotInitialized
   \<and> fst (deleteJournal (snd (initialize FailsAfterOpen store_closed)) (JStr ''a''))
       \<noteq> Inl NotInitialized
   \<and> fst (autoSaveJournal 7 (snd (initialize FailsAfterOpen store_closed)) record_c)
       \<noteq> Inl NotInitialized
   \<and> fst (initialize FailsBeforeOpen (snd (initialize FailsAfterOpen store_closed))) = True"
  by (simp add: initialize_def initializeDatabase_def store_closed_def createJournal_def
      getAllJournals_def getJournalById_def updateJournal_def deleteJournal_def
      autoSaveJournal_def NotInitialized_def record_c_def bind_prop_def)

section \<open>Selecting rows by id\<close>

lemma has_id_Some: "has_id (Some i) r \<longleftrightarrow> id_col r = Some i"
  by (cases "id_col r") (auto simp: has_id_def)

lemma has_id_None: "\<not> has_id None r"
  by (cases "id_col r") (auto simp: has_id_def)

lemma absent_filter:
  "Some i \<notin> id_col ` set rs \<Longrightarrow> filter (has_id (Some i)) rs = []"
  by (induction rs) (auto simp: has_id_Some)

lemma absent_filter_not:
  "Some i \<notin> id_col ` set rs \<Longrightarrow> filter (\<lambda>r. \<not> has_id (Some i) r) rs = rs"
  by (induction rs) (auto simp: has_id_Some)

lemma absent_find:
  "Some i \<notin> id_col ` set rs \<Longrightarrow> find (has_id (Some i)) rs = None"
  by (induction rs) (auto simp: has_id_Some)

lemma absent_map:
  "Some i \<notin> id_col ` set rs \<Longrightarrow> map (\<lambda>r. if has_id (Some i) r then f r else r) rs = rs"
  by (induction rs) (auto simp: has_id_Some)

lemma filter_has_id_removed: "filter (has_id i) (filter (\<lambda>r. \<not> has_id i r) rs) = []"
  by (induction rs) auto

lemma filter_replaced:
  "has_id i y \<Longrightarrow> filter (has_id i) (filter (\<lambda>r. \<not> has_id i r) xs @ [y]) = [y]"
  by (simp add: filter_has_id_removed)

lemma filter_not_replaced:
  "has_id i y \<Longrightarrow>
   filter (\<lambda>r. \<not> has_id i r) (filter (\<lambda>r. \<not> has_id i r) xs @ [y])
     = filter (\<lambda>r. \<not> has_id i r) xs"
  by simp

lemma has_id_new_row: "has_id (Some i) (new_row now (Some i) t c)"
  by (simp add: has_id_Some new_row_def)

lemma bind_record_a: "bind_journal record_a = Inr (Some ''a'', Some ''Day 1 bis'', Some ''y'')"
  by (simp add: record_a_def bind_prop_def)

lemma bind_record_c: "bind_journal record_c = Inr (Some ''c'', Some ''Day 3'', None)"
  by (simp add: record_c_def bind_prop_def)

lemma db_store_ab: "db store_ab"
  by (simp add: store_ab_def)

lemma absent_c_store_ab: "Some ''c'' \<notin> id_col ` set (journals store_ab)"
  by (simp add: store_ab_def row_a_def row_b_def)

section \<open>Reading all journals\<close>

lemma mset_insert_desc: "mset (insert_desc x ys) = add_mset x (mset ys)"
  by (induction ys) auto

lemma mset_order_by_updated_at_desc: "mset (order_by_updated_at_desc rs) = mset rs"
  by (induction rs) (auto simp: order_by_updated_at_desc_def mset_insert_desc)

lemma set_insert_desc: "set (insert_desc x ys) = insert x (set ys)"
  by (induction ys) auto

lemma set_order_by_updated_at_desc: "set (order_by_updated_at_desc rs) = set rs"
  by (induction rs) (auto simp: order_by_updated_at_desc_def set_insert_desc)

lemma sorted_insert_desc:
  "sorted_wrt (\<lambda>a b. updated_at b \<le> updated_at a) ys \<Longrightarrow>
   sorted_wrt (\<lambda>a b. updated_at b \<le> updated_at a) (insert_desc x ys)"
  by (induction ys) (auto simp: set_insert_desc)

lemma sorted_order_by_updated_at_desc:
  "sorted_wrt (\<lambda>a b. updated_at b \<le> updated_at a) (order_by_updated_at_desc rs)"
  by (induction rs) (auto simp: order_by_updated_at_desc_def sorted_insert_desc)

lemma updated_at_row_to_js: "updated_at (row_to_js r) = updated_at r"
  by (simp add: row_to_js_def)

text \<open>
  C7. With the connection established, getAllJournals returns without error a list
  that holds every row of the store (as a multiset, the rows of the table) ordered by
  updated_at descending, and the empty list when the table has no rows.
\<close>

theorem getAllJournals_sorted_all_rows:
  assumes "db st"
  shows "\<exists>js. getAllJournals st = Inr js
           \<and> mset js = image_mset row_to_js (mset (journals st))
           \<and> sorted_wrt (\<lambda>a b. updated_at b \<le> updated_at a) js
           \<and> (journals st = [] \<longrightarrow> js = [])"
proof -
  let ?rs = "order_by_updated_at_desc (journals st)"
  have "getAllJournals st = Inr (map row_to_js ?rs)"
    using assms by (simp add: getAllJournals_def)
  moreover have "mset (map row_to_js ?rs) = image_mset row_to_js (mset (journals st))"
    by (simp add: mset_order_by_updated_at_desc)
  moreover have "sorted_wrt (\<lambda>a b. updated_at b \<le> updated_at a) (map row_to_js ?rs)"
    using sorted_order_by_updated_at_desc [of "journals st"]
    by (simp add: sorted_wrt_map updated_at_row_to_js)
  moreover have "journals st = [] \<longrightarrow> map row_to_js ?rs = []"
    by (simp add: order_by_updated_at_desc_def)
  ultimately show ?thesis by blast
qed

theorem getAllJournals_sorted_all_rows_witness:
  "db store_ab
   \<and> getAllJournals store_ab = Inr [row_to_js row_b, row_to_js row_a]
   \<and> (\<exists>js. getAllJournals store_ab = Inr js
          \<and> mset js = image_mset row_to_js (mset (journals store_ab))
          \<and> sorted_wrt (\<lambda>a b. updated_at b \<le> updated_at a) js
          \<and> (journals store_ab = [] \<longrightarrow> js = []))"
proof (intro conjI)
  show "db store_ab" by (rule db_store_ab)
  show "getAllJournals store_ab = Inr [row_to_js row_b, row_to_js row_a]"
    by (simp add: getAllJournals_def store_ab_def order_by_updated_at_desc_def
        row_a_def row_b_def)
  show "\<exists>js. getAllJournals store_ab = Inr js
          \<and> mset js = image_mset row_to_js (mset (journals store_ab))
          \<and> sorted_wrt (\<lambda>a b. updated_at b \<le> updated_at a) js
          \<and> (journals store_ab = [] \<longrightarrow> js = [])"
    by (rule getAllJournals_sorted_all_rows [OF db_store_ab])
qed

section \<open>Ids the store does not hold\<close>

lemma bind_value_error: "bind_value v = Inl e \<Longrightarrow> e = BindError"
  by (cases v) simp_all

lemma bind_prop_error: "bind_prop ps k = Inl e \<Longrightarrow> e = BindError"
  by (auto simp: bind_prop_def split: option.splits dest: bind_value_error)

lemma bind_prop_missing: "map_of ps k = None \<Longrightarrow> bind_prop ps k = Inl BindError"
  by (simp add: bind_prop_def)

lemma bind_journal_missing_field:
  assumes "map_of ps ''id'' = None \<or> map_of ps ''title'' = None \<or> map_of ps ''content'' = None"
  shows "bind_journal (JObj ps) = Inl BindError"
proof (cases "bind_prop ps ''id''")
  case (Inl e)
  then show ?thesis using bind_prop_error [OF Inl] by simp
next
  case i: (Inr i)
  show ?thesis
  proof (cases "bind_prop ps ''title''")
    case (Inl e)
    then show ?thesis using i bind_prop_error [OF Inl] by simp
  next
    case t: (Inr t)
    show ?thesis
    proof (cases "bind_prop ps ''content''")
      case (Inl e)
      then show ?thesis using i t bind_prop_error [OF Inl] by simp
    next
      case (Inr c)
      then show ?thesis
        using assms i t bind_prop_missing [of ps] by auto
    qed
  qed
qed

text \<open>
  C5, amended. With the connection established and an id that no row of the store
  carries, getJournalById returns the empty result, deleteJournal completes with zero
  rows affected, and updateJournal completes with zero rows affected for every record
  with that id that carries the three fields id, title and content the statement
  names, each of them a text, null or undefined; none of them signals an error and
  the store is left as it was. A record that lacks one of the three fields is refused
  with an error, the store left as it was.
\<close>

theorem absent_id_no_error:
  assumes "db st" and "Some i \<notin> id_col ` set (journals st)"
  shows "getJournalById st (JStr i) = Inr None
       \<and> deleteJournal st (JStr i) = (Inr \<lparr>changes = 0\<rparr>, st)
       \<and> (bind_journal journal = Inr (Some i, t, c) \<longrightarrow>
            updateJournal now st journal = (Inr \<lparr>changes = 0\<rparr>, st))
       \<and> (journal = JObj ps
            \<and> (map_of ps ''id'' = None \<or> map_of ps ''title'' = None
                 \<or> map_of ps ''content'' = None) \<longrightarrow>
            updateJournal now st journal = (Inl BindError, st))"
proof (intro conjI impI)
  show "getJournalById st (JStr i) = Inr None"
    using assms by (simp add: getJournalById_def absent_find)
  show "deleteJournal st (JStr i) = (Inr \<lparr>changes = 0\<rparr>, st)"
    using assms by (simp add: deleteJournal_def absent_filter absent_filter_not)
  show "updateJournal now st journal = (Inr \<lparr>changes = 0\<rparr>, st)"
    if "bind_journal journal = Inr (Some i, t, c)"
    using assms that
    by (cases t) (simp_all add: updateJournal_def absent_filter absent_map)
  show "updateJournal now st journal = (Inl BindError, st)"
    if "journal = JObj ps
          \<and> (map_of ps ''id'' = None \<or> map_of ps ''title'' = None
               \<or> map_of ps ''content'' = None)"
    using assms(1) that bind_journal_missing_field [of ps]
    by (simp add: updateJournal_def del: bind_journal.simps)
qed

theorem absent_id_no_error_witness:
  "db store_ab
   \<and> Some ''c'' \<notin> id_col ` set (journals store_ab)
   \<and> bind_journal record_c = Inr (Some ''c'', Some ''Day 3'', None)
   \<and> getJournalById store_ab (JStr ''c'') = Inr None
   \<and> deleteJournal store_ab (JStr ''c'') = (Inr \<lparr>changes = 0\<rparr>, store_ab)
   \<and> updateJournal 7 store_ab record_c = (Inr \<lparr>changes = 0\<rparr>, store_ab)
   \<and> map_of [(''id'', JStr ''missing''), (''title'', JStr ''x'')] ''content'' = None
   \<and> updateJournal 7 store_ab (JObj [(''id'', JStr ''missing''), (''title'', JStr ''x'')])
       = (Inl BindError, store_ab)"
proof -
  have lacks: "map_of [(''id'', JStr ''missing''), (''title'', JStr ''x'')] ''content'' = None"
    by simp
  note bound = absent_id_no_error [OF db_store_ab absent_c_store_ab,
      where journal = record_c and t = "Some ''Day 3''" and c = None and now = 7]
  note refused = absent_id_no_error [OF db_store_ab absent_c_store_ab,
      where journal = "JObj [(''id'', JStr ''missing''), (''title'', JStr ''x'')]"
        and ps = "[(''id'', JStr ''missing''), (''title'', JStr ''x'')]" and now = 7]
  have a: "getJournalById store_ab (JStr ''c'') = Inr None"
    and b: "deleteJournal store_ab (JStr ''c'') = (Inr \<lparr>changes = 0\<rparr>, store_ab)"
    and c: "updateJournal 7 store_ab record_c = (Inr \<lparr>changes = 0\<rparr>, store_ab)"
    using bound bind_record_c by blast+
  have d: "updateJournal 7 store_ab (JObj [(''id'', JStr ''missing''), (''title'', JStr ''x'')])
       = (Inl BindError, store_ab)"
    using refused lacks by blast
  show ?thesis
    using db_store_ab absent_c_store_ab bind_record_c a b c d lacks
    by (simp only: simp_thms)
qed

text \<open>
  The claim as first stated, for every record, fails on a record that has an id and a
  title and no content field: its id is absent from the store, yet updateJournal, and
  the update-journal handler with it, signals the error with which the statement
  refuses a missing named parameter.
\<close>

theorem partial_record_refused_counterexample:
  "db store_ab
   \<and> Some ''missing'' \<notin> id_col ` set (journals store_ab)
   \<and> updateJournal 9 store_ab record_missing = (Inl BindError, store_ab)
   \<and> update_journal JSON_stringify 9 store_ab record_missing = (Inl BindError, store_ab)"
  by (simp add: store_ab_def row_a_def row_b_def record_missing_def updateJournal_def
      update_journal_def stringify_content_def bind_prop_def)

section \<open>Auto-save\<close>

lemma autoSaveJournal_journals:
  assumes "db st" and "bind_journal journal = Inr (Some i, Some t, c)"
  shows "autoSaveJournal now st journal =
           (Inr \<lparr>changes = 1\<rparr>,
            st\<lparr>journals := filter (\<lambda>r. \<not> has_id (Some i) r) (journals st)
                              @ [new_row now (Some i) t c]\<rparr>)"
  using assms by (simp add: autoSaveJournal_def)

text \<open>
  C2. With the connection established and a record whose id and title are text (and
  whose content is text or null), autoSaveJournal succeeds; afterwards exactly one row
  carries the record's id and its title, content and updated_at are the record's title
  and content and the time of the call, and the rows with other ids are as before. When
  no row carried the id, the table is the old one with that row appended, whereas
  updateJournal with the same record changes nothing and reports zero rows.
\<close>

theorem autoSaveJournal_upsert:
  assumes "db st" and "bind_journal journal = Inr (Some i, Some t, c)"
  shows "case autoSaveJournal now st journal of
           (res, st') \<Rightarrow>
             res = Inr \<lparr>changes = 1\<rparr>
           \<and> map (\<lambda>r. (title r, content r, updated_at r))
                 (filter (has_id (Some i)) (journals st')) = [(t, c, now)]
           \<and> filter (\<lambda>r. \<not> has_id (Some i) r) (journals st')
               = filter (\<lambda>r. \<not> has_id (Some i) r) (journals st)
           \<and> (Some i \<notin> id_col ` set (journals st) \<longrightarrow>
                journals st' = journals st @ filter (has_id (Some i)) (journals st')
              \<and> updateJournal now st journal = (Inr \<lparr>changes = 0\<rparr>, st))"
proof -
  let ?keep = "filter (\<lambda>r. \<not> has_id (Some i) r) (journals st)"
  let ?new = "new_row now (Some i) t c"
  define st' where "st' = st\<lparr>journals := ?keep @ [?new]\<rparr>"
  have run: "autoSaveJournal now st journal = (Inr \<lparr>changes = 1\<rparr>, st')"
    unfolding st'_def by (rule autoSaveJournal_journals [OF assms])
  have hit: "filter (has_id (Some i)) (journals st') = [?new]"
    unfolding st'_def by (simp add: filter_replaced has_id_new_row del: filter_append)
  have fields: "map (\<lambda>r. (title r, content r, updated_at r))
                  (filter (has_id (Some i)) (journals st')) = [(t, c, now)]"
    unfolding hit by (simp add: new_row_def)
  have rest: "filter (\<lambda>r. \<not> has_id (Some i) r) (journals st') = ?keep"
    unfolding st'_def by (simp add: filter_not_replaced has_id_new_row del: filter_append)
  have fresh: "journals st' = journals st @ filter (has_id (Some i)) (journals st')
             \<and> updateJournal now st journal = (Inr \<lparr>changes = 0\<rparr>, st)"
    if absent: "Some i \<notin> id_col ` set (journals st)"
  proof
    have "?keep = journals st" using absent by (rule absent_filter_not)
    then show "journals st' = journals st @ filter (has_id (Some i)) (journals st')"
      unfolding hit by (simp add: st'_def)
    show "updateJournal now st journal = (Inr \<lparr>changes = 0\<rparr>, st)"
      using assms absent by (simp add: updateJournal_def absent_filter absent_map)
  qed
  show ?thesis
    unfolding run prod.case using fields rest fresh by blast
qed

theorem autoSaveJournal_upsert_witness:
  "db store_ab
   \<and> bind_journal record_a = Inr (Some ''a'', Some ''Day 1 bis'', Some ''y'')
   \<and> bind_journal record_c = Inr (Some ''c'', Some ''Day 3'', None)
   \<and> Some ''c'' \<notin> id_col ` set (journals store_ab)
   \<and> fst (autoSaveJournal 9 store_ab record_a) = Inr \<lparr>changes = 1\<rparr>
   \<and> map (\<lambda>r. (title r, content r, updated_at r))
        (filter (has_id (Some ''a'')) (journals (snd (autoSaveJournal 9 store_ab record_a))))
      = [(''Day 1 bis'', Some ''y'', 9)]
   \<and> filter (\<lambda>r. \<not> has_id (Some ''a'') r) (journals (snd (autoSaveJournal 9 store_ab record_a)))
      = [row_b]
   \<and> journals (snd (autoSaveJournal 9 store_ab record_c))
      = [row_a, row_b, new_row 9 (Some ''c'') ''Day 3'' None]
   \<and> updateJournal 9 store_ab record_c = (Inr \<lparr>changes = 0\<rparr>, store_ab)"
proof -
  have keep_a: "filter (\<lambda>r. \<not> has_id (Some ''a'') r) (journals store_ab) = [row_b]"
    by (simp add: store_ab_def row_a_def row_b_def has_id_Some)
  have new_c: "filter (has_id (Some ''c''))
                 (journals (snd (autoSaveJournal 9 store_ab record_c)))
               = [new_row 9 (Some ''c'') ''Day 3'' None]"
    unfolding autoSaveJournal_journals [OF db_store_ab bind_record_c]
    by (simp add: filter_replaced has_id_new_row del: filter_append)
  have ab: "journals store_ab = [row_a, row_b]"
    by (simp add: store_ab_def)
  from autoSaveJournal_upsert [OF db_store_ab bind_record_a, of 9]
    autoSaveJournal_upsert [OF db_store_ab bind_record_c, of 9]
    db_store_ab bind_record_a bind_record_c absent_c_store_ab keep_a new_c ab
  show ?thesis
    by (simp add: case_prod_beta)
qed

text \<open>
  C6. With the connection established and a record whose id and title are text,
  calling autoSaveJournal twice in succession with that record, at the times
  \<open>t1\<close> and \<open>t2\<close>, succeeds both times and leaves exactly one row with the record's id,
  whose updated_at is \<open>t2\<close>, the time of the second call.
\<close>

theorem autoSaveJournal_twice:
  assumes "db st" and "bind_journal journal = Inr (Some i, Some t, c)"
  shows "case autoSaveJournal t1 st journal of
           (r1, st1) \<Rightarrow>
             (case autoSaveJournal t2 st1 journal of
                (r2, st2) \<Rightarrow>
                  r1 = Inr \<lparr>changes = 1\<rparr> \<and> r2 = Inr \<lparr>changes = 1\<rparr>
                \<and> map updated_at (filter (has_id (Some i)) (journals st2)) = [t2])"
proof -
  define st1 where
    "st1 = st\<lparr>journals := filter (\<lambda>r. \<not> has_id (Some i) r) (journals st)
                              @ [new_row t1 (Some i) t c]\<rparr>"
  define st2 where
    "st2 = st1\<lparr>journals := filter (\<lambda>r. \<not> has_id (Some i) r) (journals st1)
                              @ [new_row t2 (Some i) t c]\<rparr>"
  have run1: "autoSaveJournal t1 st journal = (Inr \<lparr>changes = 1\<rparr>, st1)"
    unfolding st1_def by (rule autoSaveJournal_journals [OF assms])
  have "db st1" using assms(1) by (simp add: st1_def)
  then have run2: "autoSaveJournal t2 st1 journal = (Inr \<lparr>changes = 1\<rparr>, st2)"
    unfolding st2_def by (rule autoSaveJournal_journals [OF _ assms(2)])
  have "filter (has_id (Some i)) (journals st2) = [new_row t2 (Some i) t c]"
    unfolding st2_def by (simp add: filter_replaced has_id_new_row del: filter_append)
  then have "map updated_at (filter (has_id (Some i)) (journals st2)) = [t2]"
    by (simp add: new_row_def)
  then show ?thesis
    unfolding run1 by (simp add: run2)
qed

theorem autoSaveJournal_twice_witness:
  "db store_ab
   \<and> bind_journal record_c = Inr (Some ''c'', Some ''Day 3'', None)
   \<and> fst (autoSaveJournal 4 store_ab record_c) = Inr \<lparr>changes = 1\<rparr>
   \<and> fst (autoSaveJournal 9 (snd (autoSaveJournal 4 store_ab record_c)) record_c)
      = Inr \<lparr>changes = 1\<rparr>
   \<and> map updated_at
        (filter (has_id (Some ''c''))
           (journals (snd (autoSaveJournal 9 (snd (autoSaveJournal 4 store_ab record_c))
              record_c))))
      = [9]"
  using autoSaveJournal_twice [OF db_store_ab bind_record_c, where ?t1.0 = 4 and ?t2.0 = 9]
    db_store_ab bind_record_c
  by (simp add: case_prod_beta)

section \<open>Evaluating the examples\<close>

lemma codec_content_day1:
  "JSON_parse (JSON_stringify content_day1) = Some content_day1"
  by code_simp

lemma json_content_day1: "json_value content_day1"
  by code_simp

lemma text_content_day1: "JSON_stringify content_day1 \<noteq> []"
  by (simp add: content_day1_def)

lemma object_content_day1: "truthy content_day1 \<and> typeof content_day1 = ''object''"
  by (simp add: content_day1_def)

lemma content_request_day1: "get_prop request_day1 ''content'' = content_day1"
  by (simp add: request_day1_def)

lemma create_request_day1:
  "create_journal JSON_stringify uuid_1 9 store_ab request_day1
     = (Inr \<lparr>changes = 1\<rparr>, store_created)"
  by code_simp

lemma update_request_day1:
  "update_journal JSON_stringify 9 store_ab request_day1
     = (Inr \<lparr>changes = 1\<rparr>, store_updated)"
  by code_simp

lemma invalid_text_x: "JSON_parse ''x'' = None"
  by code_simp

lemma find_a_store_ab: "find (has_id (Some ''a'')) (journals store_ab) = Some row_a"
  by code_simp

lemma uuid_1_nonempty: "uuid_1 \<noteq> []"
  by (simp add: uuid_1_def)

lemma find_b_store_abe: "find (has_id (Some ''b'')) (journals store_abe) = Some row_b"
  by code_simp

lemma find_e_store_abe: "find (has_id (Some ''e'')) (journals store_abe) = Some row_e"
  by code_simp

lemma db_store_abe: "db store_abe"
  by (simp add: store_abe_def)

section \<open>The reading handlers\<close>

lemma id_col_row_to_js: "id_col (row_to_js r) = id_col r"
  by (simp add: row_to_js_def)

lemma id_col_parse_content: "id_col (parse_content parse j) = id_col j"
  by (simp add: parse_content_def split: jsval.splits option.splits)

lemma parse_content_unparsed:
  "content j = JNull \<or> content j = JStr [] \<Longrightarrow> parse_content parse j = j"
  by (auto simp: parse_content_def)

lemma parse_content_text:
  "s \<noteq> [] \<Longrightarrow>
   parse_content parse (row_to_js (r\<lparr>content := Some s\<rparr>))
     = (row_to_js (r\<lparr>content := Some s\<rparr>))
         \<lparr>content := (case parse s of Some v \<Rightarrow> v | None \<Rightarrow> empty_content)\<rparr>"
  by (simp add: parse_content_def row_to_js_def split: option.splits)

lemma content_parse_content_row:
  "content r = Some s \<Longrightarrow> s \<noteq> [] \<Longrightarrow>
   parse_content parse (row_to_js r)
     = (row_to_js r)\<lparr>content := (case parse s of Some v \<Rightarrow> v | None \<Rightarrow> empty_content)\<rparr>"
  by (simp add: parse_content_def row_to_js_def split: option.splits)

lemma row_to_js_unparsed:
  "content r = None \<or> content r = Some [] \<Longrightarrow> parse_content parse (row_to_js r) = row_to_js r"
  by (rule parse_content_unparsed) (auto simp: row_to_js_def)

lemma getJournalById_found:
  "db st \<Longrightarrow> find (has_id (Some i)) (journals st) = Some r \<Longrightarrow>
   getJournalById st (JStr i) = Inr (Some (row_to_js r))"
  by (simp add: getJournalById_def)

lemma get_journal_found:
  "db st \<Longrightarrow> i \<noteq> [] \<Longrightarrow> find (has_id (Some i)) (journals st) = Some r \<Longrightarrow>
   get_journal parse st (JStr i) = Inr (Some (parse_content parse (row_to_js r)))"
  by (simp add: get_journal_def getJournalById_found)

lemma get_all_journals_rows:
  "db st \<Longrightarrow>
   get_all_journals parse st
     = Inr (map (\<lambda>r. parse_content parse (row_to_js r)) (order_by_updated_at_desc (journals st)))"
  by (simp add: get_all_journals_def getAllJournals_def comp_def)

text \<open>
  C10. With the connection established, the reading handlers leave a content that is
  null or the empty string as the store returns it, whatever \<open>JSON.parse\<close> would make of
  it: get-journal for a non-empty id whose row has such a content returns the row's
  object unchanged, get-all-journals returns, position by position, the object of
  every such row unchanged, and that object's content is \<open>null\<close> for NULL and the empty
  string for the empty text; the default structure is never substituted.
\<close>

theorem read_handlers_keep_null_and_empty_content:
  assumes "db st"
  shows "(i \<noteq> [] \<and> find (has_id (Some i)) (journals st) = Some r
            \<and> (content r = None \<or> content r = Some []) \<longrightarrow>
          get_journal parse st (JStr i) = Inr (Some (row_to_js r)))
       \<and> (\<exists>js. get_all_journals parse st = Inr js
            \<and> list_all2 (\<lambda>r j. content r = None \<or> content r = Some [] \<longrightarrow> j = row_to_js r)
                 (order_by_updated_at_desc (journals st)) js)
       \<and> (content r = None \<longrightarrow> content (row_to_js r) = JNull)
       \<and> (content r = Some [] \<longrightarrow> content (row_to_js r) = JStr [])"
proof (intro conjI impI)
  show "get_journal parse st (JStr i) = Inr (Some (row_to_js r))"
    if "i \<noteq> [] \<and> find (has_id (Some i)) (journals st) = Some r
          \<and> (content r = None \<or> content r = Some [])"
    using assms that by (simp add: get_journal_found row_to_js_unparsed)
  show "\<exists>js. get_all_journals parse st = Inr js
            \<and> list_all2 (\<lambda>r j. content r = None \<or> content r = Some [] \<longrightarrow> j = row_to_js r)
                 (order_by_updated_at_desc (journals st)) js"
    unfolding get_all_journals_rows [OF assms]
    by (simp add: list_all2_map2 list.rel_refl_strong row_to_js_unparsed)
  show "content (row_to_js r) = JNull" if "content r = None"
    using that by (simp add: row_to_js_def)
  show "content (row_to_js r) = JStr []" if "content r = Some []"
    using that by (simp add: row_to_js_def)
qed

theorem read_handlers_keep_null_and_empty_content_witness:
  "db store_abe
   \<and> find (has_id (Some ''b'')) (journals store_abe) = Some row_b \<and> content row_b = None
   \<and> get_journal JSON_parse store_abe (JStr ''b'') = Inr (Some (row_to_js row_b))
   \<and> content (row_to_js row_b) = JNull
   \<and> find (has_id (Some ''e'')) (journals store_abe) = Some row_e \<and> content row_e = Some []
   \<and> get_journal JSON_parse store_abe (JStr ''e'') = Inr (Some (row_to_js row_e))
   \<and> content (row_to_js row_e) = JStr []
   \<and> get_all_journals JSON_parse store_abe
       = Inr [row_to_js row_e, row_to_js row_b, (row_to_js row_a)\<lparr>content := empty_content\<rparr>]"
proof -
  have b: "content row_b = None" by (simp add: row_b_def)
  have e: "content row_e = Some []" by (simp add: row_e_def)
  have sorted: "order_by_updated_at_desc (journals store_abe) = [row_e, row_b, row_a]"
    by (simp add: order_by_updated_at_desc_def store_abe_def row_a_def row_b_def row_e_def)
  have a: "parse_content JSON_parse (row_to_js row_a) = (row_to_js row_a)\<lparr>content := empty_content\<rparr>"
    using invalid_text_x by (simp add: content_parse_content_row row_a_def)
  have all: "get_all_journals JSON_parse store_abe
       = Inr [row_to_js row_e, row_to_js row_b, (row_to_js row_a)\<lparr>content := empty_content\<rparr>]"
    unfolding get_all_journals_rows [OF db_store_abe] sorted
    using a b e by (simp add: row_to_js_unparsed)
  from read_handlers_keep_null_and_empty_content [OF db_store_abe, of "''b''" row_b JSON_parse]
    read_handlers_keep_null_and_empty_content [OF db_store_abe, of "''e''" row_e JSON_parse]
    db_store_abe find_b_store_abe find_e_store_abe b e all
  show ?thesis by simp
qed

section \<open>Creating through the gateway\<close>

lemma truthy_prop_object: "truthy (get_prop journal k) \<Longrightarrow> \<exists>ps. journal = JObj ps"
  by (cases journal) auto

lemma get_prop_set_prop:
  "get_prop (JObj (set_prop ps k v)) k' = (if k' = k then v else get_prop (JObj ps) k')"
  by (simp add: set_prop_def update_conv')

lemma get_prop_stringify_content:
  "get_prop (JObj (stringify_content stringify ps)) k =
     (let c = get_prop (JObj ps) ''content'' in
      if k = ''content'' \<and> truthy c \<and> typeof c = ''object'' then JStr (stringify c)
      else get_prop (JObj ps) k)"
  by (simp add: stringify_content_def Let_def get_prop_set_prop del: get_prop.simps)

lemma bind_prop_get_prop:
  "get_prop (JObj ps) k = JStr s \<Longrightarrow> bind_prop ps k = Inr (Some s)"
  by (auto simp: bind_prop_def split: option.splits)

text \<open>
  C9. A create-journal request whose title is missing (no record, no title property,
  or a falsy title) fails with "Invalid journal data" and leaves the store as it was.
  Otherwise the handler forwards to createJournal a copy of the record whose id is the
  freshly minted one, whatever id the caller supplied, whose title is the caller's and
  whose content is the text \<open>JSON.stringify\<close> gives when the caller's content is a
  structure (and the caller's content otherwise). With the connection established, a
  text title, a structure as content and a minted id the table does not hold, the
  store gains exactly the row with the minted id, the title and the serialized content.
\<close>

theorem create_journal_gateway:
  "(\<not> truthy (get_prop journal ''title'') \<longrightarrow>
      create_journal stringify uuid now st journal = (Inl (Error ''Invalid journal data''), st))
   \<and> (truthy (get_prop journal ''title'') \<longrightarrow>
        (let fwd = stringify_content stringify (set_prop (own_props journal) ''id'' (JStr uuid));
             c = get_prop journal ''content''
         in create_journal stringify uuid now st journal = createJournal now st (JObj fwd)
          \<and> get_prop (JObj fwd) ''id'' = JStr uuid
          \<and> get_prop (JObj fwd) ''title'' = get_prop journal ''title''
          \<and> get_prop (JObj fwd) ''content''
              = (if truthy c \<and> typeof c = ''object'' then JStr (stringify c) else c)))
   \<and> (db st \<and> get_prop journal ''title'' = JStr t \<and> t \<noteq> []
        \<and> truthy (get_prop journal ''content'') \<and> typeof (get_prop journal ''content'') = ''object''
        \<and> Some uuid \<notin> id_col ` set (journals st) \<longrightarrow>
        create_journal stringify uuid now st journal
          = (Inr \<lparr>changes = 1\<rparr>,
             st\<lparr>journals := journals st
                  @ [new_row now (Some uuid) t (Some (stringify (get_prop journal ''content'')))]\<rparr>))"
proof (intro conjI impI)
  show "create_journal stringify uuid now st journal = (Inl (Error ''Invalid journal data''), st)"
    if "\<not> truthy (get_prop journal ''title'')"
    using that by (simp add: create_journal_def)
next
  assume title: "truthy (get_prop journal ''title'')"
  then obtain ps where obj: "journal = JObj ps"
    using truthy_prop_object by blast
  let ?new = "set_prop ps ''id'' (JStr uuid)"
  have c: "get_prop (JObj ?new) ''content'' = get_prop (JObj ps) ''content''"
    by (simp add: get_prop_set_prop del: get_prop.simps)
  show "let fwd = stringify_content stringify (set_prop (own_props journal) ''id'' (JStr uuid));
            c = get_prop journal ''content''
        in create_journal stringify uuid now st journal = createJournal now st (JObj fwd)
          \<and> get_prop (JObj fwd) ''id'' = JStr uuid
          \<and> get_prop (JObj fwd) ''title'' = get_prop journal ''title''
          \<and> get_prop (JObj fwd) ''content''
              = (if truthy c \<and> typeof c = ''object'' then JStr (stringify c) else c)"
    using title unfolding obj Let_def own_props.simps
    by (simp add: create_journal_def get_prop_stringify_content get_prop_set_prop c Let_def
        del: get_prop.simps)
next
  assume h: "db st \<and> get_prop journal ''title'' = JStr t \<and> t \<noteq> []
        \<and> truthy (get_prop journal ''content'') \<and> typeof (get_prop journal ''content'') = ''object''
        \<and> Some uuid \<notin> id_col ` set (journals st)"
  then have "truthy (get_prop journal ''title'')" by simp
  then obtain ps where obj: "journal = JObj ps"
    using truthy_prop_object by blast
  let ?fwd = "stringify_content stringify (set_prop ps ''id'' (JStr uuid))"
  have c: "get_prop (JObj (set_prop ps ''id'' (JStr uuid))) ''content'' = get_prop (JObj ps) ''content''"
    by (simp add: get_prop_set_prop del: get_prop.simps)
  have "get_prop (JObj ?fwd) ''id'' = JStr uuid"
    by (simp add: get_prop_stringify_content get_prop_set_prop Let_def del: get_prop.simps)
  then have b_id: "bind_prop ?fwd ''id'' = Inr (Some uuid)"
    by (rule bind_prop_get_prop)
  have "get_prop (JObj ?fwd) ''title'' = JStr t"
    using h unfolding obj
    by (simp add: get_prop_stringify_content get_prop_set_prop Let_def del: get_prop.simps)
  then have b_title: "bind_prop ?fwd ''title'' = Inr (Some t)"
    by (rule bind_prop_get_prop)
  have "get_prop (JObj ?fwd) ''content'' = JStr (stringify (get_prop (JObj ps) ''content''))"
    using h unfolding obj
    by (simp add: get_prop_stringify_content c Let_def del: get_prop.simps)
  then have b_content:
    "bind_prop ?fwd ''content'' = Inr (Some (stringify (get_prop (JObj ps) ''content'')))"
    by (rule bind_prop_get_prop)
  have bind: "bind_journal (JObj ?fwd)
                = Inr (Some uuid, Some t, Some (stringify (get_prop (JObj ps) ''content'')))"
    by (simp add: b_id b_title b_content)
  have fresh: "filter (has_id (Some uuid)) (journals st) = []"
    using h by (simp add: absent_filter)
  show "create_journal stringify uuid now st journal
          = (Inr \<lparr>changes = 1\<rparr>,
             st\<lparr>journals := journals st
                  @ [new_row now (Some uuid) t (Some (stringify (get_prop journal ''content'')))]\<rparr>)"
    using h unfolding obj
    by (simp add: create_journal_def createJournal_def bind fresh del: get_prop.simps bind_journal.simps)
qed

theorem create_journal_gateway_witness:
  "\<not> truthy (get_prop request_untitled ''title'')
   \<and> create_journal JSON_stringify uuid_1 9 store_ab request_untitled
       = (Inl (Error ''Invalid journal data''), store_ab)
   \<and> truthy (get_prop request_day1 ''title'')
   \<and> get_prop request_day1 ''id'' = JStr ''a''
   \<and> get_prop
        (JObj (stringify_content JSON_stringify
                 (set_prop (own_props request_day1) ''id'' (JStr uuid_1)))) ''id''
       = JStr uuid_1
   \<and> get_prop
        (JObj (stringify_content JSON_stringify
                 (set_prop (own_props request_day1) ''id'' (JStr uuid_1)))) ''content''
       = JStr (JSON_stringify content_day1)
   \<and> db store_ab
   \<and> get_prop request_day1 ''title'' = JStr ''Day 1''
   \<and> Some uuid_1 \<notin> id_col ` set (journals store_ab)
   \<and> create_journal JSON_stringify uuid_1 9 store_ab request_day1
       = (Inr \<lparr>changes = 1\<rparr>,
          store_ab\<lparr>journals := journals store_ab
             @ [new_row 9 (Some uuid_1) ''Day 1'' (Some (JSON_stringify content_day1))]\<rparr>)"
proof -
  have untitled: "\<not> truthy (get_prop request_untitled ''title'')"
    by (simp add: request_untitled_def)
  have titled: "get_prop request_day1 ''title'' = JStr ''Day 1''"
    by (simp add: request_day1_def)
  have id_a: "get_prop request_day1 ''id'' = JStr ''a''"
    by (simp add: request_day1_def)
  have fresh: "Some uuid_1 \<notin> id_col ` set (journals store_ab)"
    by (simp add: store_ab_def row_a_def row_b_def uuid_1_def)
  have rejected: "create_journal JSON_stringify uuid_1 9 store_ab request_untitled
       = (Inl (Error ''Invalid journal data''), store_ab)"
    using create_journal_gateway [of request_untitled JSON_stringify uuid_1 9 store_ab]
      untitled by blast
  note accepted = create_journal_gateway
    [of request_day1 JSON_stringify uuid_1 9 store_ab "''Day 1''"]
  have forwarded:
    "get_prop
        (JObj (stringify_content JSON_stringify
                 (set_prop (own_props request_day1) ''id'' (JStr uuid_1)))) ''id''
       = JStr uuid_1
     \<and> get_prop
        (JObj (stringify_content JSON_stringify
                 (set_prop (own_props request_day1) ''id'' (JStr uuid_1)))) ''content''
       = JStr (JSON_stringify content_day1)"
    using accepted [THEN conjunct2, THEN conjunct1] titled object_content_day1
      content_request_day1
    by (simp add: Let_def del: get_prop.simps)
  have stored: "create_journal JSON_stringify uuid_1 9 store_ab request_day1
       = (Inr \<lparr>changes = 1\<rparr>,
          store_ab\<lparr>journals := journals store_ab
             @ [new_row 9 (Some uuid_1) ''Day 1'' (Some (JSON_stringify content_day1))]\<rparr>)"
    using accepted [THEN conjunct2, THEN conjunct2] titled object_content_day1
      content_request_day1 fresh db_store_ab
    by (simp del: get_prop.simps)
  show ?thesis
    using untitled rejected titled id_a forwarded db_store_ab fresh stored
    by (simp del: get_prop.simps)
qed

section \<open>Parsing what was serialized\<close>

text \<open>
  The parser recovers every value from the text the serializer writes for it: first
  string literals, then the elements of an array and the members of an object, given
  that their values are recovered, and at last values, by induction on the value. The
  fuel a text needs is at most its length.
\<close>

lemma hex_value_hex_digit: "n < 16 \<Longrightarrow> hex_value (hex_digit n) = Some n"
proof -
  assume "n < 16"
  then have "n \<in> {0, 1, 2, 3, 4, 5, 6, 7, 8, 9, 10, 11, 12, 13, 14, 15}"
    by simp arith
  then show ?thesis
    by (auto simp: hex_digit_def hex_value_def)
qed

lemma hex4_control:
  "n < 32 \<Longrightarrow> hex4 (CHR ''0'') (CHR ''0'') (hex_digit (n div 16)) (hex_digit (n mod 16)) = Some n"
proof -
  assume "n < 32"
  then have "n div 16 < 16" "n mod 16 < 16" by auto
  then show ?thesis
    by (simp add: hex4_def hex_value_hex_digit) (simp add: hex_value_def)
qed

lemma parse_chars_escape:
  "parse_chars (escape c @ t) = cons_char c (parse_chars t)"
proof -
  consider "c = CHR 0x22" | "c = CHR 0x5C" | "c = CHR 0x08" | "c = CHR 0x0C" | "c = CHR 0x0A"
    | "c = CHR 0x0D" | "c = CHR 0x09"
    | "c \<notin> {CHR 0x22, CHR 0x5C, CHR 0x08, CHR 0x0C, CHR 0x0A, CHR 0x0D, CHR 0x09}"
        "(of_char c :: nat) < 32"
    | "c \<noteq> CHR 0x22" "c \<noteq> CHR 0x5C" "\<not> (of_char c :: nat) < 32"
    by auto
  then show ?thesis
  proof cases
    case 8
    have small: "(of_char c :: nat) < 256" using 8(2) by simp
    show ?thesis
      using 8 hex4_control [OF 8(2)] small
      by (simp add: escape_def)
  next
    case 9
    then have "escape c = [c]"
      by (auto simp: escape_def)
    then show ?thesis using 9 by simp
  qed (simp_all add: escape_def unescape_def)
qed

lemma parse_chars_quoted:
  "parse_chars (concat (map escape s) @ CHR 0x22 # rest) = Some (s, rest)"
  by (induction s) (simp_all add: parse_chars_escape cons_char_def)

lemma stringify_head:
  "\<exists>c t. JSON_stringify v = c # t \<and> \<not> is_ws c \<and> c \<noteq> CHR '']'' \<and> c \<noteq> CHR ''}''"
  by (cases v) (simp_all add: quote_def is_ws_def)

lemma skip_ws_stringify: "skip_ws (JSON_stringify v @ rest) = JSON_stringify v @ rest"
  using stringify_head [of v] by (auto simp: skip_ws_def)

lemma skip_ws_quote: "skip_ws (quote k @ rest) = quote k @ rest"
  by (simp add: skip_ws_def quote_def is_ws_def)

lemma skip_ws_delimiter:
  "skip_ws (CHR '']'' # rest) = CHR '']'' # rest"
  "skip_ws (CHR ''}'' # rest) = CHR ''}'' # rest"
  "skip_ws (CHR '','' # rest) = CHR '','' # rest"
  "skip_ws (CHR '':'' # rest) = CHR '':'' # rest"
  by (simp_all add: skip_ws_def is_ws_def)

lemma element_texts_map: "element_texts vs = map JSON_stringify vs"
  by (induction vs) simp_all

lemma member_texts_map:
  "\<forall>p\<in>set ps. snd p \<noteq> JUndefined \<Longrightarrow>
   member_texts ps = map (\<lambda>p. quote (fst p) @ '':'' @ JSON_stringify (snd p)) ps"
  by (induction ps) auto

lemma parse_elements_texts:
  assumes "\<And>v n rest. v \<in> set vs \<Longrightarrow> length (JSON_stringify v) \<le> n \<Longrightarrow>
             parse_value n (JSON_stringify v @ rest) = Some (v, rest)"
    and "vs \<noteq> []"
    and "length (join (map JSON_stringify vs)) < n"
  shows "parse_elements n (join (map JSON_stringify vs) @ CHR '']'' # rest) = Some (vs, rest)"
  using assms
proof (induction vs arbitrary: n)
  case Nil
  then show ?case by simp
next
  case (Cons v vs)
  from Cons.prems(3) obtain m where n: "n = Suc m"
    by (cases n) simp_all
  show ?case
  proof (cases vs)
    case Nil
    have "length (JSON_stringify v) \<le> m"
      using Cons.prems(3) n Nil by simp
    then have "parse_value m (JSON_stringify v @ CHR '']'' # rest) = Some (v, CHR '']'' # rest)"
      using Cons.prems(1) by simp
    then show ?thesis
      unfolding n Nil by (simp add: skip_ws_delimiter)
  next
    case (Cons w ws)
    let ?tail = "join (map JSON_stringify (w # ws))"
    have len: "length (JSON_stringify v) \<le> m" "length ?tail < m"
      using Cons.prems(3) n Cons stringify_head [of v] by auto
    have first: "parse_value m (JSON_stringify v @ CHR '','' # ?tail @ CHR '']'' # rest)
            = Some (v, CHR '','' # ?tail @ CHR '']'' # rest)"
      using Cons.prems(1) len(1) by simp
    have rest: "parse_elements m (?tail @ CHR '']'' # rest) = Some (vs, rest)"
      unfolding Cons [symmetric]
      using Cons.prems(1) len(2) Cons
      by (intro Cons.IH) simp_all
    show ?thesis
      unfolding n using first rest Cons
      by (simp add: skip_ws_delimiter)
  qed
qed

abbreviation member_text :: "string \<times> jsval \<Rightarrow> string" where
  "member_text p \<equiv> quote (fst p) @ '':'' @ JSON_stringify (snd p)"

lemma parse_members_texts:
  assumes "\<And>p n rest. p \<in> set ps \<Longrightarrow> length (JSON_stringify (snd p)) \<le> n \<Longrightarrow>
             parse_value n (JSON_stringify (snd p) @ rest) = Some (snd p, rest)"
    and "ps \<noteq> []"
    and "length (join (map member_text ps)) < n"
  shows "parse_members n (join (map member_text ps) @ CHR ''}'' # rest) = Some (ps, rest)"
  using assms
proof (induction ps arbitrary: n)
  case Nil
  then show ?case by simp
next
  case (Cons p ps)
  obtain k v where p: "p = (k, v)" by (cases p)
  from Cons.prems(3) obtain m where n: "n = Suc m"
    by (cases n) simp_all
  have key: "parse_chars (concat (map escape k) @ CHR 0x22 # CHR '':'' # t)
               = Some (k, CHR '':'' # t)" for t
    by (rule parse_chars_quoted)
  show ?case
  proof (cases ps)
    case Nil
    have "length (JSON_stringify v) \<le> m"
      using Cons.prems(3) n Nil p by simp
    then have "parse_value m (JSON_stringify v @ CHR ''}'' # rest) = Some (v, CHR ''}'' # rest)"
      using Cons.prems(1) [of p] p by simp
    then show ?thesis
      unfolding n Nil p
      by (simp add: skip_ws_delimiter skip_ws_def is_ws_def quote_def key)
  next
    case (Cons q qs)
    let ?tail = "join (map member_text (q # qs))"
    have len: "length (JSON_stringify v) \<le> m" "length ?tail < m"
      using Cons.prems(3) n Cons p by auto
    have first: "parse_value m (JSON_stringify v @ CHR '','' # ?tail @ CHR ''}'' # rest)
            = Some (v, CHR '','' # ?tail @ CHR ''}'' # rest)"
      using Cons.prems(1) [of p] len(1) p by simp
    have rest: "parse_members m (?tail @ CHR ''}'' # rest) = Some (ps, rest)"
      unfolding Cons [symmetric]
      using Cons.prems(1) len(2) Cons
      by (intro Cons.IH) simp_all
    show ?thesis
      unfolding n using first rest Cons p
      by (simp add: skip_ws_delimiter skip_ws_def is_ws_def quote_def key)
  qed
qed

lemma update_fresh: "k \<notin> fst ` set acc \<Longrightarrow> AList.update k v acc = acc @ [(k, v)]"
  by (induction acc) auto

lemma foldl_update_distinct:
  "distinct (map fst (acc @ ps)) \<Longrightarrow>
   foldl (\<lambda>acc p. AList.update (fst p) (snd p) acc) acc ps = acc @ ps"
proof (induction ps arbitrary: acc)
  case Nil
  then show ?case by simp
next
  case (Cons p ps)
  have "fst p \<notin> fst ` set acc"
    using Cons.prems by auto
  then have "AList.update (fst p) (snd p) acc = acc @ [p]"
    by (simp add: update_fresh)
  moreover have "distinct (map fst ((acc @ [p]) @ ps))"
    using Cons.prems by simp
  ultimately show ?case
    using Cons.IH [of "acc @ [p]"] by simp
qed

lemma define_props_distinct: "distinct (map fst ps) \<Longrightarrow> define_props ps = ps"
  using foldl_update_distinct [of "[]" ps] by (simp add: define_props_def)

text \<open>
  An object whose names are distinct and none of them an array index, as the content
  structure \<open>{bullets, images, videos}\<close>, lists its properties as it enumerates them.
\<close>

lemma enumerate_props_names:
  assumes "distinct (map fst ps)" and "\<forall>p\<in>set ps. \<not> is_index (fst p)"
  shows "enumerate_props (define_props ps) = ps"
proof -
  have "filter (\<lambda>p. is_index (fst p)) ps = []"
    using assms(2) by (simp add: filter_empty_conv)
  moreover have "filter (\<lambda>p. \<not> is_index (fst p)) ps = ps"
    using assms(2) by (simp add: filter_id_conv)
  ultimately show ?thesis
    using assms(1) by (simp add: enumerate_props_def define_props_distinct)
qed

lemma parse_value_stringify:
  "json_value v \<Longrightarrow> length (JSON_stringify v) \<le> n \<Longrightarrow>
   parse_value n (JSON_stringify v @ rest) = Some (v, rest)"
proof (induction v arbitrary: n rest)
  case JUndefined
  then show ?case by simp
next
  case JNull
  then obtain m where "n = Suc m" by (cases n) simp_all
  then show ?case by (simp add: skip_ws_def is_ws_def)
next
  case (JBool b)
  then obtain m where "n = Suc m" by (cases n) (simp_all split: if_splits)
  then show ?case by (cases b) (simp_all add: skip_ws_def is_ws_def)
next
  case (JStr s)
  then obtain m where "n = Suc m" by (cases n) (simp_all add: quote_def)
  then show ?case
    by (simp add: skip_ws_def is_ws_def quote_def parse_chars_quoted)
next
  case (JArr vs)
  then obtain m where n: "n = Suc m" by (cases n) simp_all
  show ?case
  proof (cases "vs = []")
    case True
    then show ?thesis unfolding n by (simp add: skip_ws_def is_ws_def)
  next
    case False
    let ?texts = "join (map JSON_stringify vs)"
    have len: "length ?texts < m"
      using JArr.prems(2) n by (simp add: element_texts_map)
    have elems: "parse_elements m (?texts @ CHR '']'' # rest) = Some (vs, rest)"
      using JArr.IH JArr.prems(1) False len
      by (intro parse_elements_texts) simp_all
    obtain v ws where vs: "vs = v # ws" using False by (cases vs) auto
    obtain c t where head: "JSON_stringify v = c # t" "\<not> is_ws c" "c \<noteq> CHR '']''"
      using stringify_head [of v] by blast
    have start: "\<exists>t'. ?texts @ CHR '']'' # rest = c # t'"
      unfolding vs using head(1) by (cases ws) simp_all
    then obtain t' where t': "?texts @ CHR '']'' # rest = c # t'" by blast
    show ?thesis
      unfolding n using elems head(2,3) t'
      by (simp add: element_texts_map skip_ws_def is_ws_def)
  qed
next
  case (JObj ps)
  then obtain m where n: "n = Suc m" by (cases n) simp_all
  have defined: "\<forall>p\<in>set ps. snd p \<noteq> JUndefined"
    using JObj.prems(1) by auto
  have texts: "member_texts ps = map member_text ps"
    using defined by (rule member_texts_map)
  have keys: "enumerate_props (define_props ps) = ps"
    using JObj.prems(1) by simp
  show ?case
  proof (cases "ps = []")
    case True
    then show ?thesis unfolding n by (simp add: skip_ws_def is_ws_def)
  next
    case False
    let ?texts = "join (map member_text ps)"
    have len: "length ?texts < m"
      using JObj.prems(2) n by (simp add: texts)
    have ih: "parse_value k (JSON_stringify (snd p) @ r) = Some (snd p, r)"
      if "p \<in> set ps" "length (JSON_stringify (snd p)) \<le> k" for p k r
      using JObj.IH [of p "snd p" k r] JObj.prems(1) that
      by (cases p) auto
    have membs: "parse_members m (?texts @ CHR ''}'' # rest) = Some (ps, rest)"
      using ih False len by (intro parse_members_texts) simp_all
    obtain p qs where ps: "ps = p # qs" using False by (cases ps) auto
    have start: "\<exists>t'. ?texts @ CHR ''}'' # rest = CHR 0x22 # t'"
      unfolding ps by (cases qs) (simp_all add: quote_def)
    then obtain t' where t': "?texts @ CHR ''}'' # rest = CHR 0x22 # t'" by blast
    show ?thesis
      unfolding n using membs t' keys
      by (simp add: texts skip_ws_def is_ws_def)
  qed
qed

lemma JSON_parse_stringify: "json_value v \<Longrightarrow> JSON_parse (JSON_stringify v) = Some v"
  using parse_value_stringify [of v "Suc (length (JSON_stringify v))" "[]"]
  by (simp add: JSON_parse_def skip_ws_def)

section \<open>Writing a content and reading it back\<close>

lemma content_parse_content_parsed:
  "content r = Some s \<Longrightarrow> s \<noteq> [] \<Longrightarrow> parse s = Some c \<Longrightarrow>
   content (parse_content parse (row_to_js r)) = c"
  by (simp add: content_parse_content_row)

lemma reads_after_write:
  assumes "db st" and "i \<noteq> []"
    and ex: "\<exists>r\<in>set (journals st). has_id (Some i) r"
    and all: "\<forall>r\<in>set (journals st). has_id (Some i) r \<longrightarrow> content r = Some s"
    and "s \<noteq> []" and "parse s = Some c"
  shows "(\<exists>j. get_journal parse st (JStr i) = Inr (Some j) \<and> content j = c)
       \<and> (\<exists>js. get_all_journals parse st = Inr js
             \<and> (\<exists>j\<in>set js. id_col j = Some i)
             \<and> (\<forall>j\<in>set js. id_col j = Some i \<longrightarrow> content j = c))"
proof
  from ex obtain r where r: "find (has_id (Some i)) (journals st) = Some r"
    by (cases "find (has_id (Some i)) (journals st)") (auto simp: find_None_iff)
  then have "r \<in> set (journals st)" and "has_id (Some i) r"
    by (auto simp: find_Some_iff)
  with all have "content r = Some s" by blast
  then have "content (parse_content parse (row_to_js r)) = c"
    using assms(5,6) by (rule content_parse_content_parsed)
  then show "\<exists>j. get_journal parse st (JStr i) = Inr (Some j) \<and> content j = c"
    using get_journal_found [OF assms(1,2) r] by simp
next
  let ?f = "\<lambda>r. parse_content parse (row_to_js r)"
  let ?js = "map ?f (order_by_updated_at_desc (journals st))"
  have set_js: "set ?js = ?f ` set (journals st)"
    by (simp add: set_order_by_updated_at_desc)
  have id_f: "id_col (?f r) = id_col r" for r
    by (simp add: id_col_parse_content id_col_row_to_js)
  have "\<exists>j\<in>set ?js. id_col j = Some i"
    using ex unfolding set_js by (auto simp: id_f has_id_Some)
  moreover have "\<forall>j\<in>set ?js. id_col j = Some i \<longrightarrow> content j = c"
    unfolding set_js
    using all assms(5,6) by (auto simp: id_f has_id_Some content_parse_content_parsed)
  ultimately show "\<exists>js. get_all_journals parse st = Inr js
             \<and> (\<exists>j\<in>set js. id_col j = Some i)
             \<and> (\<forall>j\<in>set js. id_col j = Some i \<longrightarrow> content j = c)"
    unfolding get_all_journals_rows [OF assms(1)] by blast
qed

lemma bind_forwarded_content:
  assumes "truthy (get_prop (JObj ps) ''content'')"
    and "typeof (get_prop (JObj ps) ''content'') = ''object''"
  shows "bind_prop (stringify_content stringify ps) ''content''
           = Inr (Some (stringify (get_prop (JObj ps) ''content'')))"
proof -
  have "get_prop (JObj (stringify_content stringify ps)) ''content''
          = JStr (stringify (get_prop (JObj ps) ''content''))"
    using assms by (simp add: get_prop_stringify_content Let_def del: get_prop.simps)
  then show ?thesis by (rule bind_prop_get_prop)
qed

lemma bind_forwarded_id:
  assumes "get_prop (JObj ps) ''id'' = JStr i"
  shows "bind_prop (stringify_content stringify ps) ''id'' = Inr (Some i)"
proof -
  have "get_prop (JObj (stringify_content stringify ps)) ''id'' = JStr i"
    using assms by (simp add: get_prop_stringify_content Let_def del: get_prop.simps)
  then show ?thesis by (rule bind_prop_get_prop)
qed

lemma create_journal_written:
  assumes "db st"
    and "truthy (get_prop journal ''content'')"
    and "typeof (get_prop journal ''content'') = ''object''"
    and run: "create_journal stringify uuid now st journal = (Inr res, st')"
  shows "db st' \<and> (\<exists>r\<in>set (journals st'). has_id (Some uuid) r)
       \<and> (\<forall>r\<in>set (journals st'). has_id (Some uuid) r \<longrightarrow>
            content r = Some (stringify (get_prop journal ''content'')))"
proof -
  from assms(2) obtain ps where obj: "journal = JObj ps"
    using truthy_prop_object by blast
  let ?new = "set_prop ps ''id'' (JStr uuid)"
  let ?s = "stringify (get_prop (JObj ps) ''content'')"
  have c: "get_prop (JObj ?new) ''content'' = get_prop (JObj ps) ''content''"
    by (simp add: get_prop_set_prop del: get_prop.simps)
  have "get_prop (JObj ?new) ''id'' = JStr uuid"
    by (simp add: get_prop_set_prop del: get_prop.simps)
  then have b_id: "bind_prop (stringify_content stringify ?new) ''id'' = Inr (Some uuid)"
    by (rule bind_forwarded_id)
  have b_content: "bind_prop (stringify_content stringify ?new) ''content'' = Inr (Some ?s)"
    using bind_forwarded_content [of ?new stringify] assms(2,3) unfolding obj c by simp
  from run have store: "createJournal now st (JObj (stringify_content stringify ?new)) = (Inr res, st')"
    unfolding obj by (simp add: create_journal_def split: if_splits)
  then obtain t where
    st': "st' = st\<lparr>journals := journals st @ [new_row now (Some uuid) t (Some ?s)]\<rparr>"
    and fresh: "filter (has_id (Some uuid)) (journals st) = []"
    using assms(1)
    by (auto simp: createJournal_def b_id b_content simp del: get_prop.simps
        split: sum.splits option.splits if_splits)
  have old: "\<not> has_id (Some uuid) r" if "r \<in> set (journals st)" for r
    using fresh that by (auto simp: filter_empty_conv)
  show ?thesis
    unfolding st' obj using assms(1) old
    by (auto simp: has_id_new_row new_row_def has_id_Some simp del: get_prop.simps)
qed

lemma update_journal_written:
  assumes "db st"
    and "truthy (get_prop journal ''content'')"
    and "typeof (get_prop journal ''content'') = ''object''"
    and ident: "get_prop journal ''id'' = JStr i"
    and run: "update_journal stringify now st journal = (Inr res, st')"
    and hit: "0 < changes res"
  shows "db st' \<and> i \<noteq> [] \<and> (\<exists>r\<in>set (journals st'). has_id (Some i) r)
       \<and> (\<forall>r\<in>set (journals st'). has_id (Some i) r \<longrightarrow>
            content r = Some (stringify (get_prop journal ''content'')))"
proof -
  from assms(2) obtain ps where obj: "journal = JObj ps"
    using truthy_prop_object by blast
  let ?s = "stringify (get_prop (JObj ps) ''content'')"
  have b_id: "bind_prop (stringify_content stringify ps) ''id'' = Inr (Some i)"
    using ident unfolding obj by (rule bind_forwarded_id)
  have b_content: "bind_prop (stringify_content stringify ps) ''content'' = Inr (Some ?s)"
    using bind_forwarded_content assms(2,3) unfolding obj by simp
  from run have nonempty: "i \<noteq> []"
    using ident by (auto simp: update_journal_def split: if_splits)
  from run have store: "updateJournal now st (JObj (stringify_content stringify ps)) = (Inr res, st')"
    unfolding obj by (simp add: update_journal_def split: if_splits)
  then obtain t where
    st': "st' = st\<lparr>journals :=
                 map (\<lambda>r. if has_id (Some i) r
                           then r\<lparr>title := t, content := Some ?s, updated_at := now\<rparr> else r)
                   (journals st)\<rparr>"
    and res: "changes res = length (filter (has_id (Some i)) (journals st))"
    using assms(1) hit
    by (auto simp: updateJournal_def b_id b_content simp del: get_prop.simps
        split: sum.splits option.splits if_splits)
  from res hit have "filter (has_id (Some i)) (journals st) \<noteq> []"
    by auto
  then obtain r0 where r0: "r0 \<in> set (journals st)" "has_id (Some i) r0"
    by (auto simp: filter_empty_conv)
  have keep: "has_id (Some i) (r\<lparr>title := t, content := Some ?s, updated_at := now\<rparr>)
                \<longleftrightarrow> has_id (Some i) r" for r :: row
    by (simp add: has_id_Some)
  have "(if has_id (Some i) r0
         then r0\<lparr>title := t, content := Some ?s, updated_at := now\<rparr> else r0)
          \<in> set (journals st')"
    unfolding st' using r0(1) by (simp del: get_prop.simps)
  then have "r0\<lparr>title := t, content := Some ?s, updated_at := now\<rparr> \<in> set (journals st')"
    using r0(2) by (simp del: get_prop.simps)
  then have "\<exists>r\<in>set (journals st'). has_id (Some i) r"
    using keep r0(2) by blast
  moreover have "\<forall>r\<in>set (journals st'). has_id (Some i) r \<longrightarrow> content r = Some ?s"
    unfolding st' by (auto simp: keep simp del: get_prop.simps split: if_splits)
  ultimately show ?thesis
    unfolding obj using assms(1) nonempty by (simp add: st')
qed

text \<open>
  What a reader returns once a writer has succeeded, for any \<open>JSON.parse\<close> that
  recovers the content from the text the writer's \<open>JSON.stringify\<close> gave.
\<close>

lemma stringify_nonempty: "JSON_stringify v \<noteq> []"
  using stringify_head [of v] by auto

lemma written_content_read_back:
  assumes "db st" and "truthy c" and "typeof c = ''object''"
    and "parse (stringify c) = Some c" and "stringify c \<noteq> []"
    and "get_prop journal ''content'' = c"
  shows "(uuid \<noteq> [] \<and> create_journal stringify uuid now st journal = (Inr cres, cst) \<longrightarrow>
           (\<exists>j. get_journal parse cst (JStr uuid) = Inr (Some j) \<and> content j = c)
         \<and> (\<exists>js. get_all_journals parse cst = Inr js
               \<and> (\<exists>j\<in>set js. id_col j = Some uuid)
               \<and> (\<forall>j\<in>set js. id_col j = Some uuid \<longrightarrow> content j = c)))
       \<and> (get_prop journal ''id'' = JStr i
            \<and> update_journal stringify now st journal = (Inr ures, ust) \<and> 0 < changes ures \<longrightarrow>
           (\<exists>j. get_journal parse ust (JStr i) = Inr (Some j) \<and> content j = c)
         \<and> (\<exists>js. get_all_journals parse ust = Inr js
               \<and> (\<exists>j\<in>set js. id_col j = Some i)
               \<and> (\<forall>j\<in>set js. id_col j = Some i \<longrightarrow> content j = c)))"
proof (intro conjI; intro impI)
  assume run: "uuid \<noteq> [] \<and> create_journal stringify uuid now st journal = (Inr cres, cst)"
  from run assms have w: "db cst \<and> (\<exists>r\<in>set (journals cst). has_id (Some uuid) r)
       \<and> (\<forall>r\<in>set (journals cst). has_id (Some uuid) r \<longrightarrow> content r = Some (stringify c))"
    using create_journal_written [OF assms(1), of journal stringify uuid now cres cst] by simp
  from w run assms(4,5)
  show "(\<exists>j. get_journal parse cst (JStr uuid) = Inr (Some j) \<and> content j = c)
       \<and> (\<exists>js. get_all_journals parse cst = Inr js
             \<and> (\<exists>j\<in>set js. id_col j = Some uuid)
             \<and> (\<forall>j\<in>set js. id_col j = Some uuid \<longrightarrow> content j = c))"
    by (intro reads_after_write [where s = "stringify c"]) simp_all
next
  assume run: "get_prop journal ''id'' = JStr i
      \<and> update_journal stringify now st journal = (Inr ures, ust) \<and> 0 < changes ures"
  from run assms have w: "db ust \<and> i \<noteq> [] \<and> (\<exists>r\<in>set (journals ust). has_id (Some i) r)
       \<and> (\<forall>r\<in>set (journals ust). has_id (Some i) r \<longrightarrow> content r = Some (stringify c))"
    using update_journal_written [OF assms(1), of journal i stringify now ures ust] by simp
  from w assms(4,5)
  show "(\<exists>j. get_journal parse ust (JStr i) = Inr (Some j) \<and> content j = c)
       \<and> (\<exists>js. get_all_journals parse ust = Inr js
             \<and> (\<exists>j\<in>set js. id_col j = Some i)
             \<and> (\<forall>j\<in>set js. id_col j = Some i \<longrightarrow> content j = c))"
    by (intro reads_after_write [where s = "stringify c"]) simp_all
qed

lemma unparsable_content_read:
  assumes "db st"
  shows "(content r = Some s \<and> s \<noteq> [] \<and> parse s = None
            \<and> k \<noteq> [] \<and> find (has_id (Some k)) (journals st) = Some r \<longrightarrow>
           get_journal parse st (JStr k) = Inr (Some ((row_to_js r)\<lparr>content := empty_content\<rparr>)))
       \<and> (\<exists>js. get_all_journals parse st = Inr js
            \<and> list_all2
                 (\<lambda>r j. \<forall>s. content r = Some s \<and> s \<noteq> [] \<and> parse s = None \<longrightarrow>
                          j = (row_to_js r)\<lparr>content := empty_content\<rparr>)
                 (order_by_updated_at_desc (journals st)) js)"
proof (intro conjI impI)
  assume "content r = Some s \<and> s \<noteq> [] \<and> parse s = None
            \<and> k \<noteq> [] \<and> find (has_id (Some k)) (journals st) = Some r"
  then show "get_journal parse st (JStr k) = Inr (Some ((row_to_js r)\<lparr>content := empty_content\<rparr>))"
    using assms by (simp add: get_journal_found content_parse_content_row)
next
  show "\<exists>js. get_all_journals parse st = Inr js
            \<and> list_all2
                 (\<lambda>r j. \<forall>s. content r = Some s \<and> s \<noteq> [] \<and> parse s = None \<longrightarrow>
                          j = (row_to_js r)\<lparr>content := empty_content\<rparr>)
                 (order_by_updated_at_desc (journals st)) js"
    unfolding get_all_journals_rows [OF assms]
    by (auto simp: list_all2_map2 list_all2_same content_parse_content_row)
qed

text \<open>
  C4, amended. Let the connection be established, and let \<open>c\<close> be a structured content:
  an array or object that holds no \<open>undefined\<close>, such as \<open>{bullets, images, videos}\<close> with
  lists of texts. If create-journal succeeds on a record with content \<open>c\<close>, under the
  id it minted, or update-journal succeeds on a record with content \<open>c\<close> and changes at
  least one row, then get-journal for that id returns a journal whose content is \<open>c\<close>,
  and get-all-journals returns a list in which that id occurs and in which every
  journal with that id has content \<open>c\<close>. And for every row whose stored content is a
  non-empty text that \<open>JSON.parse\<close> rejects, get-journal and get-all-journals return the
  row's object with the content replaced by \<open>{bullets: [], images: [], videos: []}\<close>.
  (An empty stored text is not parsed: it is returned as it is.) The round trip is
  stated for the model of the built-ins, the replacement for every \<open>JSON.parse\<close>.
\<close>

theorem content_round_trip:
  assumes "db st"
  shows
    "(json_value c \<and> truthy c \<and> typeof c = ''object'' \<and> get_prop journal ''content'' = c \<longrightarrow>
        (uuid \<noteq> [] \<and> create_journal JSON_stringify uuid now st journal = (Inr cres, cst) \<longrightarrow>
           (\<exists>j. get_journal JSON_parse cst (JStr uuid) = Inr (Some j) \<and> content j = c)
         \<and> (\<exists>js. get_all_journals JSON_parse cst = Inr js
               \<and> (\<exists>j\<in>set js. id_col j = Some uuid)
               \<and> (\<forall>j\<in>set js. id_col j = Some uuid \<longrightarrow> content j = c)))
      \<and> (get_prop journal ''id'' = JStr i
            \<and> update_journal JSON_stringify now st journal = (Inr ures, ust)
            \<and> 0 < changes ures \<longrightarrow>
           (\<exists>j. get_journal JSON_parse ust (JStr i) = Inr (Some j) \<and> content j = c)
         \<and> (\<exists>js. get_all_journals JSON_parse ust = Inr js
               \<and> (\<exists>j\<in>set js. id_col j = Some i)
               \<and> (\<forall>j\<in>set js. id_col j = Some i \<longrightarrow> content j = c))))
   \<and> (content r = Some s \<and> s \<noteq> [] \<and> parse s = None
         \<and> k \<noteq> [] \<and> find (has_id (Some k)) (journals st) = Some r \<longrightarrow>
        get_journal parse st (JStr k) = Inr (Some ((row_to_js r)\<lparr>content := empty_content\<rparr>)))
   \<and> (\<exists>js. get_all_journals parse st = Inr js
         \<and> list_all2
              (\<lambda>r j. \<forall>s. content r = Some s \<and> s \<noteq> [] \<and> parse s = None \<longrightarrow>
                       j = (row_to_js r)\<lparr>content := empty_content\<rparr>)
              (order_by_updated_at_desc (journals st)) js)"
proof -
  have written:
    "(uuid \<noteq> [] \<and> create_journal JSON_stringify uuid now st journal = (Inr cres, cst) \<longrightarrow>
           (\<exists>j. get_journal JSON_parse cst (JStr uuid) = Inr (Some j) \<and> content j = c)
         \<and> (\<exists>js. get_all_journals JSON_parse cst = Inr js
               \<and> (\<exists>j\<in>set js. id_col j = Some uuid)
               \<and> (\<forall>j\<in>set js. id_col j = Some uuid \<longrightarrow> content j = c)))
      \<and> (get_prop journal ''id'' = JStr i
            \<and> update_journal JSON_stringify now st journal = (Inr ures, ust)
            \<and> 0 < changes ures \<longrightarrow>
           (\<exists>j. get_journal JSON_parse ust (JStr i) = Inr (Some j) \<and> content j = c)
         \<and> (\<exists>js. get_all_journals JSON_parse ust = Inr js
               \<and> (\<exists>j\<in>set js. id_col j = Some i)
               \<and> (\<forall>j\<in>set js. id_col j = Some i \<longrightarrow> content j = c)))"
    if c: "json_value c \<and> truthy c \<and> typeof c = ''object'' \<and> get_prop journal ''content'' = c"
  proof -
    have codec: "JSON_parse (JSON_stringify c) = Some c"
      using c by (simp add: JSON_parse_stringify)
    show ?thesis
      using c codec stringify_nonempty [of c]
      by (intro written_content_read_back
            [where parse = JSON_parse and stringify = JSON_stringify and c = c, OF assms])
        simp_all
  qed
  show ?thesis
    using written unparsable_content_read [OF assms, of r s parse k] by blast
qed

theorem content_round_trip_witness:
  "db store_ab
   \<and> json_value content_day1 \<and> truthy content_day1 \<and> typeof content_day1 = ''object''
   \<and> get_prop request_day1 ''content'' = content_day1
   \<and> uuid_1 \<noteq> []
   \<and> create_journal JSON_stringify uuid_1 9 store_ab request_day1
       = (Inr \<lparr>changes = 1\<rparr>, store_created)
   \<and> (\<exists>j. get_journal JSON_parse store_created (JStr uuid_1) = Inr (Some j)
          \<and> content j = content_day1)
   \<and> (\<exists>js. get_all_journals JSON_parse store_created = Inr js
          \<and> (\<exists>j\<in>set js. id_col j = Some uuid_1)
          \<and> (\<forall>j\<in>set js. id_col j = Some uuid_1 \<longrightarrow> content j = content_day1))
   \<and> get_prop request_day1 ''id'' = JStr ''a''
   \<and> update_journal JSON_stringify 9 store_ab request_day1
       = (Inr \<lparr>changes = 1\<rparr>, store_updated)
   \<and> (\<exists>j. get_journal JSON_parse store_updated (JStr ''a'') = Inr (Some j)
          \<and> content j = content_day1)
   \<and> (\<exists>js. get_all_journals JSON_parse store_updated = Inr js
          \<and> (\<exists>j\<in>set js. id_col j = Some ''a'')
          \<and> (\<forall>j\<in>set js. id_col j = Some ''a'' \<longrightarrow> content j = content_day1))
   \<and> content row_a = Some ''x'' \<and> JSON_parse ''x'' = None
   \<and> find (has_id (Some ''a'')) (journals store_ab) = Some row_a
   \<and> get_journal JSON_parse store_ab (JStr ''a'')
       = Inr (Some ((row_to_js row_a)\<lparr>content := empty_content\<rparr>))"
proof -
  have id_a: "get_prop request_day1 ''id'' = JStr ''a''"
    by (simp add: request_day1_def)
  have x: "content row_a = Some ''x''"
    by (simp add: row_a_def)
  note inst = content_round_trip [OF db_store_ab,
      where c = content_day1 and parse = JSON_parse
        and journal = request_day1 and uuid = uuid_1 and now = 9
        and cres = "\<lparr>changes = 1\<rparr>" and cst = store_created
        and i = "''a''" and ures = "\<lparr>changes = 1\<rparr>" and ust = store_updated
        and r = row_a and s = "''x''" and k = "''a''"]
  show ?thesis
    using inst db_store_ab json_content_day1 object_content_day1
      content_request_day1 uuid_1_nonempty create_request_day1 id_a update_request_day1
      x invalid_text_x find_a_store_ab
    by simp
qed

text \<open>
  The claim as first stated fails for the empty text: it is not a serialized value, yet
  get-journal returns it unchanged instead of the default structure.
\<close>

theorem empty_text_not_replaced_counterexample:
  "db store_abe
   \<and> find (has_id (Some ''e'')) (journals store_abe) = Some row_e
   \<and> content row_e = Some []
   \<and> JSON_parse [] = None
   \<and> get_journal JSON_parse store_abe (JStr ''e'') = Inr (Some (row_to_js row_e))
   \<and> content (row_to_js row_e) = JStr []
   \<and> JStr [] \<noteq> empty_content"
proof -
  have e: "content row_e = Some []" by (simp add: row_e_def)
  have p: "JSON_parse [] = None" by code_simp
  have g: "get_journal JSON_parse store_abe (JStr ''e'') = Inr (Some (row_to_js row_e))"
    using e by (simp add: get_journal_found [OF db_store_abe _ find_e_store_abe] row_to_js_unparsed)
  have c: "content (row_to_js row_e) = JStr []"
    by (simp add: row_to_js_def row_e_def)
  show ?thesis
    using db_store_abe find_e_store_abe e p g c by (simp add: empty_content_def)
qed

section \<open>Columns that auto-save resets\<close>






text \<open>
  The handlers alone reach the reset: a journal created at time 1 through
  create-journal and auto-saved at time 9 through auto-save-journal has created_at 9.
\<close>

lemma created_at_reset_through_handlers:
  "map created_at
     (journals (snd (create_journal JSON_stringify uuid_1 1 store_empty request_day1))) = [1]
   \<and> map created_at
        (journals
           (snd (auto_save_journal JSON_stringify 9
                   (snd (create_journal JSON_stringify uuid_1 1 store_empty request_day1))
                   autosave_day1))) = [9]"
  by code_simp

text \<open>
  C1. created_at is to be set once, when the row is first inserted, and left unchanged
  by every later operation. updateJournal does so; autoSaveJournal does not: for the
  row \<open>a\<close>, created at time 1, an auto-save at time 9 leaves the row with created_at 9,
  because \<open>INSERT OR REPLACE\<close> deletes the row and inserts a new one whose unlisted
  columns take their defaults.
\<close>

theorem autoSaveJournal_resets_created_at:
  "map created_at (filter (has_id (Some ''a'')) (journals store_ab)) = [1]
   \<and> fst (autoSaveJournal 9 store_ab record_a) = Inr \<lparr>changes = 1\<rparr>
   \<and> map created_at
        (filter (has_id (Some ''a'')) (journals (snd (autoSaveJournal 9 store_ab record_a)))) = [9]
   \<and> map created_at
        (filter (has_id (Some ''a'')) (journals (snd (updateJournal 9 store_ab record_a)))) = [1]"
  by code_simp

section \<open>The publish flag\<close>







text \<open>
  The restriction to the tables the program builds is needed. \<open>INSERT OR REPLACE\<close> gives
  the replaced row the default of every column it does not list, so on a table with a
  published row, which no call produces, an auto-save would unpublish the row where an
  update keeps it published.
\<close>

lemma published_row_reset_by_autoSave:
  "map is_published (filter (has_id (Some ''p'')) (journals store_p)) = [True]
   \<and> fst (autoSaveJournal 9 store_p record_p) = Inr \<lparr>changes = 1\<rparr>
   \<and> map is_published
        (filter (has_id (Some ''p'')) (journals (snd (autoSaveJournal 9 store_p record_p)))) = [False]
   \<and> map is_published
        (filter (has_id (Some ''p'')) (journals (snd (updateJournal 9 store_p record_p)))) = [True]"
  by code_simp

end
